theory Spec2Isabelle
  imports Complex_Main
begin

section \<open>Data model\<close>

text \<open>
  Go's \<open>float64\<close> values occur here only as utilization percentages and alert thresholds
  that are decoded from JSON (which cannot carry NaN or an infinity), and the code only
  copies and compares them. Finite floating point values are ordered as the real numbers
  they denote, so they are modelled as reals.

  \<open>time.Time\<close> is an instant, modelled as its offset in nanoseconds from the zero value
  \<open>time.Time{}\<close>; \<open>time.Duration\<close> is a number of nanoseconds.
\<close>

type_synonym float64 = real
type_synonym time = int
type_synonym duration = int

definition zeroTime :: time where
  "zeroTime = 0"

definition Second :: duration where
  "Second = 1000000000"

text \<open>
  The error values of package \<open>api\<close> (\<open>client.go\<close>, \<open>auth.go\<close>), and one constructor for
  each other place where the code makes or passes on an error.
\<close>

datatype error =
    ErrNoSessionKey
  | ErrNoOrgID
  | ErrUnauthorized
  | ErrSessionExpired
  | ErrRateLimited
  | ErrAPIUnavailable
  | ErrAuthFailed
  | ErrNewRequest string          \<comment> \<open>\<open>http.NewRequest\<close> refused the URL\<close>
  | ErrTransport string           \<comment> \<open>\<open>httpClient.Do\<close> failed\<close>
  | ErrReadBody string            \<comment> \<open>\<open>io.ReadAll\<close> failed\<close>
  | ErrUnexpectedStatus int       \<comment> \<open>"unexpected status code: %d"\<close>
  | ErrUsageEndpointReturned int  \<comment> \<open>"usage endpoint returned: %d"\<close>
  | ErrJSON string                \<comment> \<open>\<open>json.Unmarshal\<close> failed\<close>
  | ErrParseUsage string          \<comment> \<open>"failed to parse usage response: %w"\<close>
  | ErrNoOrganizations            \<comment> \<open>"no organizations found"\<close>
  | ErrExtract string             \<comment> \<open>the cookie extractor failed\<close>

record APIError =
  apiType :: string
  Error_Type :: string
  Error_Message :: string
  Error_Details_ErrorCode :: string

record UsageStat =
  Utilization :: float64
  ResetsAt :: time
  Label :: string

record UsageData =
  FiveHour :: UsageStat
  SevenDay :: UsageStat
  SevenDayOpus :: UsageStat
  SevenDaySonnet :: UsageStat
  LastUpdated :: time

record OrganizationInfo =
  org_ID :: string
  org_Name :: string

record UsageMetric =
  m_Utilization :: float64
  m_ResetsAt :: string

text \<open>The pointer fields of \<open>UsageAPIResponse\<close> are options: \<open>nil\<close> is \<open>None\<close>.\<close>

record UsageAPIResponse =
  r_FiveHour :: "UsageMetric option"
  r_SevenDay :: "UsageMetric option"
  r_SevenDayOpus :: "UsageMetric option"
  r_SevenDaySonnet :: "UsageMetric option"

record Client =
  sessionKey :: string
  organizationID :: string
  lastUsage :: "UsageData option"
  lastFetch :: time

text \<open>
  \<open>Config\<close> of package \<open>config\<close>. The fields \<open>NotificationsEnabled\<close> and
  \<open>AlertThresholds\<close> are read by \<open>app.go\<close> with these types; the other fields of the
  struct play no part in the modelled code.
\<close>

record Config =
  SessionKey :: string
  OrganizationID :: string
  RefreshInterval :: int
  NotificationsEnabled :: bool
  AlertThresholds :: "float64 list"

section \<open>The environment\<close>

text \<open>
  A request as far as the code varies it: the URL and the \<open>Cookie\<close> header
  (every other header of \<open>setHeaders\<close> is a constant).
\<close>

record request =
  req_url :: string
  req_cookie :: string

text \<open>
  What one HTTP exchange gives the code: \<open>Do\<close> fails, or it answers with a status and
  reading the body fails, or it answers with a status and a body.
\<close>

datatype http_result =
    DoError string
  | ReadError int string
  | Response int string

text \<open>
  What the presentation layer is told, in call order. The notification texts are built
  with \<open>%.0f\<close> from the utilization and the threshold; the model keeps the two numbers.
\<close>

datatype ui_event =
    SetStatus string
  | SetStatusRateLimited int      \<comment> \<open>"Rate limited - retry in %ds"\<close>
  | OverlayUpdateUsage UsageData
  | TrayUpdateUsage UsageData
  | SessionNotification float64 float64
  | WeeklyNotification float64 float64

text \<open>
  Library functions the code calls and the repository does not define:
  \<open>json.Unmarshal\<close> at the three types it is used at, \<open>time.Parse\<close>, and the URL check
  of \<open>http.NewRequest\<close> (\<open>Some\<close> message when the URL is refused).
\<close>

record extlib =
  json_APIError :: "string \<Rightarrow> APIError option"
  json_Orgs :: "string \<Rightarrow> string + OrganizationInfo list"
  json_Usage :: "string \<Rightarrow> string + UsageAPIResponse"
  time_Parse :: "string \<Rightarrow> string \<Rightarrow> time option"
  url_error :: "string \<Rightarrow> string option"

text \<open>
  The polling state of \<open>App\<close> (\<open>app.go\<close>). \<open>consecutiveErrors\<close> is a Go \<open>int\<close>
  (64 bits), kept as an integer with the wrap-around of \<open>++\<close> written out.
\<close>

record AppState =
  consecutiveErrors :: int
  rateLimitBackoff :: duration
  lastSessionThreshold :: float64
  lastWeeklyThreshold :: float64

text \<open>
  The whole state. \<open>client\<close> and \<open>config\<close> are the objects that \<open>App\<close> and
  \<open>AuthManager\<close> both point to. The rest is the world outside: \<open>net n r\<close> is what the
  network gives to request \<open>r\<close> when \<open>n\<close> requests went before it, \<open>requests\<close> lists
  the requests issued, \<open>sleeps\<close> the calls of \<open>time.Sleep\<close>, \<open>clock\<close> is
  \<open>time.Now()\<close>, \<open>browser n\<close> is what the \<open>n\<close>-th call of the cookie extractor
  returns, \<open>save_error n\<close> is the error of the \<open>n\<close>-th \<open>Config.Save\<close> if it fails,
  \<open>disk\<close> is the configuration file, \<open>ui\<close> the calls to the presentation layer.
  Locks and log output are left out: the model is one sequential thread.
\<close>

record system =
  client :: Client
  config :: Config
  app :: AppState
  net :: "nat \<Rightarrow> request \<Rightarrow> http_result"
  requests :: "request list"
  sleeps :: "duration list"
  clock :: time
  browser :: "nat \<Rightarrow> string + string"
  extracts :: nat
  save_error :: "nat \<Rightarrow> string option"
  saves :: nat
  disk :: "Config option"
  ui :: "ui_event list"

definition http_Do :: "request \<Rightarrow> system \<Rightarrow> http_result \<times> system" where
  "http_Do r s = (net s (length (requests s)) r, s\<lparr>requests := requests s @ [r]\<rparr>)"

definition time_Sleep :: "duration \<Rightarrow> system \<Rightarrow> system" where
  "time_Sleep d s = s\<lparr>sleeps := sleeps s @ [d], clock := clock s + d\<rparr>"

definition fyne_Do :: "ui_event \<Rightarrow> system \<Rightarrow> system" where
  "fyne_Do e s = s\<lparr>ui := ui s @ [e]\<rparr>"

section \<open>client.go\<close>

definition baseURL :: string where
  "baseURL = ''https://claude.ai''"

definition SetSessionKey :: "string \<Rightarrow> system \<Rightarrow> system" where
  "SetSessionKey key s = s\<lparr>client := (client s)\<lparr>sessionKey := key\<rparr>\<rparr>"

definition SetOrganizationID :: "string \<Rightarrow> system \<Rightarrow> system" where
  "SetOrganizationID oid s = s\<lparr>client := (client s)\<lparr>organizationID := oid\<rparr>\<rparr>"

definition HasCredentials :: "system \<Rightarrow> bool" where
  "HasCredentials s = (sessionKey (client s) \<noteq> '''' \<and> organizationID (client s) \<noteq> '''')"

definition HasPrefix :: "string \<Rightarrow> string \<Rightarrow> bool" where
  "HasPrefix s p = (take (length p) s = p)"

definition setHeaders :: "string \<Rightarrow> string \<Rightarrow> request" where
  "setHeaders u key =
     \<lparr>req_url = u,
      req_cookie = (if HasPrefix key ''sk-ant-'' then ''sessionKey='' @ key else key)\<rparr>"

definition parseAPIError :: "extlib \<Rightarrow> string \<Rightarrow> string" where
  "parseAPIError L body =
     (case json_APIError L body of None \<Rightarrow> '''' | Some apiErr \<Rightarrow> Error_Details_ErrorCode apiErr)"

definition fetchOrganizationsOnce ::
  "extlib \<Rightarrow> string \<Rightarrow> system \<Rightarrow> (error + OrganizationInfo list) \<times> system" where
  "fetchOrganizationsOnce L key s =
     (case url_error L (baseURL @ ''/api/organizations'') of
        Some m \<Rightarrow> (Inl (ErrNewRequest m), s)
      | None \<Rightarrow>
          (case http_Do (setHeaders (baseURL @ ''/api/organizations'') key) s of
             (DoError m, s1) \<Rightarrow> (Inl (ErrTransport m), s1)
           | (ReadError st m, s1) \<Rightarrow> (Inl (ErrReadBody m), s1)
           | (Response st body, s1) \<Rightarrow>
               if st = 401 \<or> st = 403 then
                 (if parseAPIError L body = ''account_session_invalid''
                  then (Inl ErrSessionExpired, s1)
                  else (Inl ErrUnauthorized, s1))
               else if st \<noteq> 200 then (Inl (ErrUnexpectedStatus st), s1)
               else (case json_Orgs L body of
                       Inl m \<Rightarrow> (Inl (ErrJSON m), s1)
                     | Inr orgs \<Rightarrow> (Inr orgs, s1))))"

text \<open>
  The loop \<open>for attempt := 0; attempt < 2; attempt++\<close> of \<open>FetchOrganizations\<close>, with
  its two variables. Leaving the loop returns \<open>nil, lastErr\<close>; with \<open>lastErr\<close> still
  \<open>nil\<close> that would be the empty list and no error.
\<close>

function FetchOrganizations_loop ::
  "extlib \<Rightarrow> string \<Rightarrow> nat \<Rightarrow> error option \<Rightarrow> system \<Rightarrow> (error + OrganizationInfo list) \<times> system" where
  "FetchOrganizations_loop L key attempt lastErr s =
     (if attempt < 2 then
        (case fetchOrganizationsOnce L key (if attempt > 0 then time_Sleep (2 * Second) s else s) of
           (Inr orgs, s2) \<Rightarrow> (Inr orgs, s2)
         | (Inl err, s2) \<Rightarrow>
             if err = ErrUnauthorized \<or> err = ErrSessionExpired then (Inl err, s2)
             else FetchOrganizations_loop L key (attempt + 1) (Some err) s2)
      else (case lastErr of Some e \<Rightarrow> (Inl e, s) | None \<Rightarrow> (Inr [], s)))"
  by pat_completeness auto
termination
  by (relation "measure (\<lambda>(L, key, attempt, lastErr, s). 2 - attempt)") auto

definition FetchOrganizations :: "extlib \<Rightarrow> system \<Rightarrow> (error + OrganizationInfo list) \<times> system" where
  "FetchOrganizations L s =
     (if sessionKey (client s) = '''' then (Inl ErrNoSessionKey, s)
      else FetchOrganizations_loop L (sessionKey (client s)) 0 None s)"

subsection \<open>Usage\<close>

definition RFC3339 :: string where
  "RFC3339 = ''2006-01-02T15:04:05Z07:00''"

definition RFC3339Nano :: string where
  "RFC3339Nano = ''2006-01-02T15:04:05.999999999Z07:00''"

definition formats :: "string list" where
  "formats = [RFC3339, RFC3339Nano, ''2006-01-02T15:04:05.000Z'', ''2006-01-02T15:04:05Z'']"

fun parseTime_loop :: "extlib \<Rightarrow> string list \<Rightarrow> string \<Rightarrow> time" where
  "parseTime_loop L [] s = zeroTime"
| "parseTime_loop L (format # rest) s =
     (case time_Parse L format s of Some t \<Rightarrow> t | None \<Rightarrow> parseTime_loop L rest s)"

definition parseTime :: "extlib \<Rightarrow> string \<Rightarrow> time" where
  "parseTime L s = (if s = '''' then zeroTime else parseTime_loop L formats s)"

definition zeroStat :: UsageStat where
  "zeroStat = \<lparr>Utilization = 0, ResetsAt = zeroTime, Label = ''''\<rparr>"

definition toStat :: "extlib \<Rightarrow> string \<Rightarrow> UsageMetric option \<Rightarrow> UsageStat" where
  "toStat L lbl m =
     (case m of
        None \<Rightarrow> zeroStat
      | Some x \<Rightarrow> \<lparr>Utilization = m_Utilization x, ResetsAt = parseTime L (m_ResetsAt x), Label = lbl\<rparr>)"

definition ToUsageData :: "extlib \<Rightarrow> time \<Rightarrow> UsageAPIResponse \<Rightarrow> UsageData" where
  "ToUsageData L now r =
     \<lparr>FiveHour = toStat L ''5-Hour'' (r_FiveHour r),
      SevenDay = toStat L ''Weekly'' (r_SevenDay r),
      SevenDayOpus = toStat L ''Opus'' (r_SevenDayOpus r),
      SevenDaySonnet = toStat L ''Sonnet'' (r_SevenDaySonnet r),
      LastUpdated = now\<rparr>"

text \<open>
  \<open>fetchUsageOnce\<close> returns a pointer and an error: the pointer is an option, and every
  successful return is \<open>Some\<close>.
\<close>

definition fetchUsageOnce ::
  "extlib \<Rightarrow> string \<Rightarrow> string \<Rightarrow> system \<Rightarrow> (error + UsageData option) \<times> system" where
  "fetchUsageOnce L key orgID s =
     (case url_error L (baseURL @ ''/api/organizations/'' @ orgID @ ''/usage'') of
        Some m \<Rightarrow> (Inl (ErrNewRequest m), s)
      | None \<Rightarrow>
          (case http_Do (setHeaders (baseURL @ ''/api/organizations/'' @ orgID @ ''/usage'') key) s of
             (DoError m, s1) \<Rightarrow> (Inl (ErrTransport m), s1)
           | (ReadError st m, s1) \<Rightarrow> (Inl (ErrReadBody m), s1)
           | (Response st body, s1) \<Rightarrow>
               if st = 401 \<or> st = 403 then
                 (if parseAPIError L body \<noteq> '''' \<and> parseAPIError L body = ''account_session_invalid''
                  then (Inl ErrSessionExpired, s1)
                  else (Inl ErrUnauthorized, s1))
               else if st = 429 then (Inl ErrRateLimited, s1)
               else if st \<ge> 500 then (Inl ErrAPIUnavailable, s1)
               else if st \<noteq> 200 then (Inl (ErrUsageEndpointReturned st), s1)
               else (case json_Usage L body of
                       Inl m \<Rightarrow> (Inl (ErrParseUsage m), s1)
                     | Inr apiResponse \<Rightarrow>
                         (let usage = ToUsageData L (clock s1) apiResponse
                          in (Inr (Some usage),
                              s1\<lparr>client := (client s1)\<lparr>lastUsage := Some usage, lastFetch := clock s1\<rparr>\<rparr>)))))"

function FetchUsage_loop ::
  "extlib \<Rightarrow> string \<Rightarrow> string \<Rightarrow> nat \<Rightarrow> error option \<Rightarrow> system \<Rightarrow> (error + UsageData option) \<times> system" where
  "FetchUsage_loop L key orgID attempt lastErr s =
     (if attempt < 2 then
        (case fetchUsageOnce L key orgID (if attempt > 0 then time_Sleep (2 * Second) s else s) of
           (Inr usage, s2) \<Rightarrow> (Inr usage, s2)
         | (Inl err, s2) \<Rightarrow>
             if err = ErrUnauthorized \<or> err = ErrSessionExpired then (Inl err, s2)
             else FetchUsage_loop L key orgID (attempt + 1) (Some err) s2)
      else (case lastErr of Some e \<Rightarrow> (Inl e, s) | None \<Rightarrow> (Inr None, s)))"
  by pat_completeness auto
termination
  by (relation "measure (\<lambda>(L, key, orgID, attempt, lastErr, s). 2 - attempt)") auto

definition FetchUsage :: "extlib \<Rightarrow> system \<Rightarrow> (error + UsageData option) \<times> system" where
  "FetchUsage L s =
     (if sessionKey (client s) = '''' then (Inl ErrNoSessionKey, s)
      else if organizationID (client s) = '''' then (Inl ErrNoOrgID, s)
      else FetchUsage_loop L (sessionKey (client s)) (organizationID (client s)) 0 None s)"

definition GetLastUsage :: "system \<Rightarrow> UsageData option" where
  "GetLastUsage s = lastUsage (client s)"

definition GetLastFetchTime :: "system \<Rightarrow> time" where
  "GetLastFetchTime s = lastFetch (client s)"

section \<open>config (the credential store)\<close>

text \<open>
  \<open>Save\<close> writes the whole configuration to the file; a failed \<open>Save\<close> leaves the file
  as it was. The setters change the field in memory first and then save.
\<close>

definition Config_Save :: "system \<Rightarrow> string option \<times> system" where
  "Config_Save s =
     (case save_error s (saves s) of
        Some m \<Rightarrow> (Some m, s\<lparr>saves := saves s + 1\<rparr>)
      | None \<Rightarrow> (None, s\<lparr>saves := saves s + 1, disk := Some (config s)\<rparr>))"

definition Config_SetSessionKey :: "string \<Rightarrow> system \<Rightarrow> string option \<times> system" where
  "Config_SetSessionKey key s = Config_Save (s\<lparr>config := (config s)\<lparr>SessionKey := key\<rparr>\<rparr>)"

definition Config_SetOrganizationID :: "string \<Rightarrow> system \<Rightarrow> string option \<times> system" where
  "Config_SetOrganizationID oid s = Config_Save (s\<lparr>config := (config s)\<lparr>OrganizationID := oid\<rparr>\<rparr>)"

section \<open>auth.go\<close>

text \<open>The cookie extractor answers with a session key or with an error message.\<close>

definition ExtractSessionKey :: "system \<Rightarrow> (error + string) \<times> system" where
  "ExtractSessionKey s =
     (case browser s (extracts s) of
        Inl m \<Rightarrow> (Inl (ErrExtract m), s\<lparr>extracts := extracts s + 1\<rparr>)
      | Inr key \<Rightarrow> (Inr key, s\<lparr>extracts := extracts s + 1\<rparr>))"

text \<open>An error return of these functions is \<open>Some\<close>, \<open>nil\<close> is \<open>None\<close>.\<close>

definition verifyAndFetchOrg :: "extlib \<Rightarrow> system \<Rightarrow> error option \<times> system" where
  "verifyAndFetchOrg L s =
     (case FetchOrganizations L s of
        (Inl err, s1) \<Rightarrow> (Some err, s1)
      | (Inr orgs, s1) \<Rightarrow>
          (case orgs of
             [] \<Rightarrow> (Some ErrNoOrganizations, s1)
           | org # rest \<Rightarrow>
               (None, snd (Config_SetOrganizationID (org_ID org) (SetOrganizationID (org_ID org) s1)))))"

definition SetManualSessionKey :: "extlib \<Rightarrow> string \<Rightarrow> system \<Rightarrow> error option \<times> system" where
  "SetManualSessionKey L key s =
     (case verifyAndFetchOrg L (SetSessionKey key s) of
        (Some err, s1) \<Rightarrow> (Some err, SetSessionKey '''' s1)
      | (None, s1) \<Rightarrow> (None, snd (Config_SetSessionKey key s1)))"

definition RefreshFromBrowser :: "extlib \<Rightarrow> system \<Rightarrow> error option \<times> system" where
  "RefreshFromBrowser L s =
     (case ExtractSessionKey s of
        (Inl err, s1) \<Rightarrow> (Some err, s1)
      | (Inr key, s1) \<Rightarrow>
          (case verifyAndFetchOrg L (SetSessionKey key s1) of
             (Some err, s2) \<Rightarrow> (Some err, s2)
           | (None, s2) \<Rightarrow> (None, snd (Config_SetSessionKey key s2))))"

definition IsAuthenticated :: "system \<Rightarrow> bool" where
  "IsAuthenticated s = HasCredentials s"

section \<open>app.go\<close>

definition wrap64 :: "int \<Rightarrow> int" where
  "wrap64 x = (x + 2 ^ 63) mod 2 ^ 64 - 2 ^ 63"

fun highestCrossedThreshold_loop :: "float64 \<Rightarrow> float64 list \<Rightarrow> float64 \<Rightarrow> float64" where
  "highestCrossedThreshold_loop utilization [] highest = highest"
| "highestCrossedThreshold_loop utilization (t # thresholds) highest =
     highestCrossedThreshold_loop utilization thresholds
       (if utilization \<ge> t \<and> t > highest then t else highest)"

definition highestCrossedThreshold :: "float64 \<Rightarrow> float64 list \<Rightarrow> float64" where
  "highestCrossedThreshold utilization thresholds =
     highestCrossedThreshold_loop utilization thresholds 0"

definition SendNotification :: "ui_event \<Rightarrow> system \<Rightarrow> system" where
  "SendNotification e s = s\<lparr>ui := ui s @ [e]\<rparr>"

text \<open>The two halves of \<open>checkAndNotify\<close>, one for each tracked metric.\<close>

definition checkSession :: "UsageData \<Rightarrow> system \<Rightarrow> system" where
  "checkSession usage s =
     (let sessionCrossed =
            highestCrossedThreshold (Utilization (FiveHour usage)) (AlertThresholds (config s))
      in if sessionCrossed > lastSessionThreshold (app s) then
           SendNotification (SessionNotification (Utilization (FiveHour usage)) sessionCrossed)
             (s\<lparr>app := (app s)\<lparr>lastSessionThreshold := sessionCrossed\<rparr>\<rparr>)
         else if sessionCrossed < lastSessionThreshold (app s) then
           s\<lparr>app := (app s)\<lparr>lastSessionThreshold := sessionCrossed\<rparr>\<rparr>
         else s)"

definition checkWeekly :: "UsageData \<Rightarrow> system \<Rightarrow> system" where
  "checkWeekly usage s =
     (let weeklyCrossed =
            highestCrossedThreshold (Utilization (SevenDay usage)) (AlertThresholds (config s))
      in if weeklyCrossed > lastWeeklyThreshold (app s) then
           SendNotification (WeeklyNotification (Utilization (SevenDay usage)) weeklyCrossed)
             (s\<lparr>app := (app s)\<lparr>lastWeeklyThreshold := weeklyCrossed\<rparr>\<rparr>)
         else if weeklyCrossed < lastWeeklyThreshold (app s) then
           s\<lparr>app := (app s)\<lparr>lastWeeklyThreshold := weeklyCrossed\<rparr>\<rparr>
         else s)"

definition checkAndNotify :: "UsageData \<Rightarrow> system \<Rightarrow> system" where
  "checkAndNotify usage s =
     (if \<not> NotificationsEnabled (config s) \<or> length (AlertThresholds (config s)) = 0 then s
      else checkWeekly usage (checkSession usage s))"

text \<open>
  \<open>fetchUsage\<close> of \<open>App\<close>, one tick of the polling loop, in its three parts: the pending
  backoff is consumed, then the client is called, then the error or the snapshot is
  handled. The result is \<open>None\<close> where the Go code would panic: a negative shift count,
  or a \<open>nil\<close> snapshot returned without an error.
\<close>

definition consumeBackoff :: "system \<Rightarrow> system" where
  "consumeBackoff s =
     (let backoff = rateLimitBackoff (app s)
      in if backoff > 0 then time_Sleep backoff (s\<lparr>app := (app s)\<lparr>rateLimitBackoff := 0\<rparr>\<rparr>)
         else s)"

definition fetchUsage_failed :: "extlib \<Rightarrow> error \<Rightarrow> system \<Rightarrow> system option" where
  "fetchUsage_failed L err s0 =
     (let errCount = wrap64 (consecutiveErrors (app s0) + 1);
          s = s0\<lparr>app := (app s0)\<lparr>consecutiveErrors := errCount\<rparr>\<rparr>
      in if err = ErrSessionExpired then
           (case RefreshFromBrowser L (fyne_Do (SetStatus ''Session expired - refreshing...'') s) of
              (Some refreshErr, s1) \<Rightarrow>
                Some (fyne_Do (SetStatus ''Session expired - update key in Settings'') s1)
            | (None, s1) \<Rightarrow> Some s1)
         else if err = ErrUnauthorized then
           (case RefreshFromBrowser L (fyne_Do (SetStatus ''Auth failed - refreshing...'') s) of
              (Some refreshErr, s1) \<Rightarrow>
                Some (fyne_Do (SetStatus ''Auth failed - update key in Settings'') s1)
            | (None, s1) \<Rightarrow> Some s1)
         else if err = ErrRateLimited then
           (let shift = min (wrap64 (errCount - 1)) 3
            in if shift < 0 then None
               else (let backoffSec = wrap64 (30 * wrap64 (2 ^ nat shift))
                     in Some (fyne_Do (SetStatusRateLimited backoffSec)
                          (s\<lparr>app := (app s)\<lparr>rateLimitBackoff := wrap64 (backoffSec * Second)\<rparr>\<rparr>))))
         else if err = ErrAPIUnavailable then
           Some (fyne_Do (SetStatus ''Claude API unavailable'') s)
         else if errCount \<ge> 3 then
           Some (fyne_Do (SetStatus ''Connection error - retrying...'') s)
         else Some s)"

definition fetchUsage_succeeded :: "UsageData \<Rightarrow> system \<Rightarrow> system" where
  "fetchUsage_succeeded usage s =
     checkAndNotify usage
       (fyne_Do (TrayUpdateUsage usage)
         (fyne_Do (OverlayUpdateUsage usage)
           (s\<lparr>app := (app s)\<lparr>consecutiveErrors := 0, rateLimitBackoff := 0\<rparr>\<rparr>)))"

definition fetchUsage :: "extlib \<Rightarrow> system \<Rightarrow> system option" where
  "fetchUsage L s =
     (if \<not> IsAuthenticated s then Some s
      else (case FetchUsage L (consumeBackoff s) of
              (Inl err, s1) \<Rightarrow> fetchUsage_failed L err s1
            | (Inr None, s1) \<Rightarrow> None
            | (Inr (Some usage), s1) \<Rightarrow> Some (fetchUsage_succeeded usage s1)))"

text \<open>A run of ticks, stopping at a panic.\<close>

fun ticks :: "extlib \<Rightarrow> nat \<Rightarrow> system \<Rightarrow> system option" where
  "ticks L 0 s = Some s"
| "ticks L (Suc n) s = (case fetchUsage L s of None \<Rightarrow> None | Some s1 \<Rightarrow> ticks L n s1)"

text \<open>One successful fetch after another, as the notification check sees them.\<close>

fun notifyAll :: "UsageData list \<Rightarrow> system \<Rightarrow> system" where
  "notifyAll [] s = s"
| "notifyAll (usage # rest) s = notifyAll rest (checkAndNotify usage s)"

section \<open>The specification's wording, for comparison\<close>

text \<open>
  "The maximum t in T with t <= u, or 0 if none qualifies", for the thresholds as the
  list the code holds them in.
\<close>

definition spec_highestCrossed :: "float64 \<Rightarrow> float64 list \<Rightarrow> float64" where
  "spec_highestCrossed u T =
     (if filter (\<lambda>t. t \<le> u) T = [] then 0 else Max (set (filter (\<lambda>t. t \<le> u) T)))"

section \<open>Concrete inputs\<close>

text \<open>
  A library instance and a start state to evaluate the model on. The library decodes the
  few bodies and the one timestamp used below; every other input is an error.
\<close>

definition sessionInvalidBody :: string where
  \<open>sessionInvalidBody = ''{"error":{"details":{"error_code":"account_session_invalid"}}}''\<close>

definition permissionBody :: string where
  \<open>permissionBody = ''{"error":{"details":{"error_code":"permission_denied"}}}''\<close>

definition orgsBody :: string where
  \<open>orgsBody = ''[{"uuid":"org-1","name":"Acme"}]''\<close>

definition usageBody :: string where
  \<open>usageBody = ''{"five_hour":{"utilization":60,"resets_at":"2025-01-01T00:00:00Z"}}''\<close>

definition demoLib :: extlib where
  "demoLib =
     \<lparr>json_APIError = (\<lambda>b.
        if b = sessionInvalidBody then
          Some \<lparr>apiType = '''', Error_Type = '''', Error_Message = '''',
                Error_Details_ErrorCode = ''account_session_invalid''\<rparr>
        else if b = permissionBody then
          Some \<lparr>apiType = '''', Error_Type = '''', Error_Message = '''',
                Error_Details_ErrorCode = ''permission_denied''\<rparr>
        else None),
      json_Orgs = (\<lambda>b.
        if b = orgsBody then Inr [\<lparr>org_ID = ''org-1'', org_Name = ''Acme''\<rparr>]
        else Inl ''invalid character''),
      json_Usage = (\<lambda>b.
        if b = usageBody then
          Inr \<lparr>r_FiveHour = Some \<lparr>m_Utilization = 60, m_ResetsAt = ''2025-01-01T00:00:00Z''\<rparr>,
               r_SevenDay = None, r_SevenDayOpus = None, r_SevenDaySonnet = None\<rparr>
        else Inl ''invalid character''),
      time_Parse = (\<lambda>layout v.
        if layout = RFC3339 \<and> v = ''2025-01-01T00:00:00Z'' then Some 63871286400000000000
        else None),
      url_error = (\<lambda>u. None)\<rparr>"

definition demoSystem :: "(nat \<Rightarrow> request \<Rightarrow> http_result) \<Rightarrow> system" where
  "demoSystem n =
     \<lparr>client = \<lparr>sessionKey = ''sk-ant-sid01-abc'', organizationID = ''org-1'',
                lastUsage = None, lastFetch = zeroTime\<rparr>,
      config = \<lparr>SessionKey = ''sk-ant-sid01-abc'', OrganizationID = ''org-1'',
                RefreshInterval = 60, NotificationsEnabled = True,
                AlertThresholds = [50, 75, 90]\<rparr>,
      app = \<lparr>consecutiveErrors = 0, rateLimitBackoff = 0,
             lastSessionThreshold = 0, lastWeeklyThreshold = 0\<rparr>,
      net = n, requests = [], sleeps = [], clock = 1000,
      browser = (\<lambda>k. Inl ''no browser found''), extracts = 0,
      save_error = (\<lambda>k. None), saves = 0, disk = None, ui = []\<rparr>"

text \<open>Networks: one that answers every request alike, one that fails once and then answers.\<close>

definition always :: "http_result \<Rightarrow> nat \<Rightarrow> request \<Rightarrow> http_result" where
  "always r n q = r"

definition failsOnce :: "http_result \<Rightarrow> nat \<Rightarrow> request \<Rightarrow> http_result" where
  "failsOnce r n q = (if n = 0 then DoError ''connection reset'' else r)"

definition answersOnce :: "http_result \<Rightarrow> nat \<Rightarrow> request \<Rightarrow> http_result" where
  "answersOnce r n q = (if n = 0 then Response 200 usageBody else r)"

text \<open>A snapshot with the given 5-hour and 7-day utilization.\<close>

definition usageOf :: "float64 \<Rightarrow> float64 \<Rightarrow> UsageData" where
  "usageOf a b =
     \<lparr>FiveHour = \<lparr>Utilization = a, ResetsAt = zeroTime, Label = ''5-Hour''\<rparr>,
      SevenDay = \<lparr>Utilization = b, ResetsAt = zeroTime, Label = ''Weekly''\<rparr>,
      SevenDayOpus = zeroStat, SevenDaySonnet = zeroStat, LastUpdated = zeroTime\<rparr>"

text \<open>The start state with notifications switched off.\<close>

definition mutedSystem :: system where
  "mutedSystem =
     (demoSystem (always (DoError ''offline'')))
       \<lparr>config := (config (demoSystem (always (DoError ''offline''))))
                    \<lparr>NotificationsEnabled := False\<rparr>\<rparr>"

text \<open>
  Two decoded usage responses: one with all four metrics and a timestamp the library
  accepts, one with a metric missing, an empty timestamp and one that no layout accepts.
\<close>

definition fullResponse :: UsageAPIResponse where
  "fullResponse =
     \<lparr>r_FiveHour = Some \<lparr>m_Utilization = 60, m_ResetsAt = ''2025-01-01T00:00:00Z''\<rparr>,
      r_SevenDay = Some \<lparr>m_Utilization = 35, m_ResetsAt = ''2025-01-01T00:00:00Z''\<rparr>,
      r_SevenDayOpus = Some \<lparr>m_Utilization = 10, m_ResetsAt = ''2025-01-01T00:00:00Z''\<rparr>,
      r_SevenDaySonnet = Some \<lparr>m_Utilization = 25, m_ResetsAt = ''2025-01-01T00:00:00Z''\<rparr>\<rparr>"

definition partialResponse :: UsageAPIResponse where
  "partialResponse =
     \<lparr>r_FiveHour = None,
      r_SevenDay = Some \<lparr>m_Utilization = 35, m_ResetsAt = ''''\<rparr>,
      r_SevenDayOpus = Some \<lparr>m_Utilization = 10, m_ResetsAt = ''next tuesday''\<rparr>,
      r_SevenDaySonnet = Some \<lparr>m_Utilization = 25, m_ResetsAt = ''2025-01-01T00:00:00Z''\<rparr>\<rparr>"

text \<open>
  What a run shows from outside: the calls to the presentation layer made between two
  states, and the thresholds of the session and of the weekly notifications among them,
  in order.
\<close>

definition emitted :: "system \<Rightarrow> system \<Rightarrow> ui_event list" where
  "emitted s s' = drop (length (ui s)) (ui s')"

fun sessionThresholds :: "ui_event list \<Rightarrow> float64 list" where
  "sessionThresholds [] = []"
| "sessionThresholds (SessionNotification u t # es) = t # sessionThresholds es"
| "sessionThresholds (e # es) = sessionThresholds es"

fun weeklyThresholds :: "ui_event list \<Rightarrow> float64 list" where
  "weeklyThresholds [] = []"
| "weeklyThresholds (WeeklyNotification u t # es) = t # weeklyThresholds es"
| "weeklyThresholds (e # es) = weeklyThresholds es"

text \<open>
  A run of \<open>n\<close> ticks on each of which the client returns \<open>ErrRateLimited\<close>, and two
  readings of a run: what the client returns on the tick after \<open>n\<close> ticks, and the
  backoff that is pending after \<open>n\<close> ticks.
\<close>

fun rateLimitedRun :: "extlib \<Rightarrow> nat \<Rightarrow> system \<Rightarrow> bool" where
  "rateLimitedRun L 0 s = True"
| "rateLimitedRun L (Suc n) s =
     (fst (FetchUsage L (consumeBackoff s)) = Inl ErrRateLimited \<and>
      (case fetchUsage L s of None \<Rightarrow> False | Some s1 \<Rightarrow> rateLimitedRun L n s1))"

definition clientAnswerAt :: "extlib \<Rightarrow> nat \<Rightarrow> system \<Rightarrow> (error + UsageData option) option" where
  "clientAnswerAt L n s = map_option (\<lambda>s1. fst (FetchUsage L (consumeBackoff s1))) (ticks L n s)"

definition backoffAfter :: "extlib \<Rightarrow> nat \<Rightarrow> system \<Rightarrow> duration option" where
  "backoffAfter L n s = map_option (\<lambda>s1. rateLimitBackoff (app s1)) (ticks L n s)"

text \<open>A network that answers the first two requests with 503 and every later one with 429.\<close>

definition unavailableThenLimited :: "nat \<Rightarrow> request \<Rightarrow> http_result" where
  "unavailableThenLimited n q = (if n < 2 then Response 503 '''' else Response 429 '''')"

text \<open>
  A decoded usage response whose timestamps are ISO 8601 local times, without a zone
  designator. Each of the four layouts of \<open>parseTime\<close> ends in a zone element, so
  \<open>time.Parse\<close> accepts such a string under none of them.
\<close>

definition localTimeResponse :: UsageAPIResponse where
  "localTimeResponse =
     \<lparr>r_FiveHour = Some \<lparr>m_Utilization = 60, m_ResetsAt = ''2025-01-01T00:00:00''\<rparr>,
      r_SevenDay = Some \<lparr>m_Utilization = 35, m_ResetsAt = ''2025-01-01T00:00:00''\<rparr>,
      r_SevenDayOpus = Some \<lparr>m_Utilization = 10, m_ResetsAt = ''2025-01-01T00:00:00''\<rparr>,
      r_SevenDaySonnet = Some \<lparr>m_Utilization = 25, m_ResetsAt = ''2025-01-01T00:00:00''\<rparr>\<rparr>"

section \<open>Shared facts about the client\<close>

declare FetchUsage_loop.simps [simp del] FetchOrganizations_loop.simps [simp del]

lemma time_Sleep_fields:
  "client (time_Sleep d s) = client s"
  "config (time_Sleep d s) = config s"
  "app (time_Sleep d s) = app s"
  "net (time_Sleep d s) = net s"
  "requests (time_Sleep d s) = requests s"
  "sleeps (time_Sleep d s) = sleeps s @ [d]"
  by (simp_all add: time_Sleep_def)

text \<open>The two passes of the retry loop, written out.\<close>

lemma FetchUsage_loop_unfold:
  "FetchUsage_loop L key orgID 0 None s =
     (case fetchUsageOnce L key orgID s of
        (Inr usage, s1) \<Rightarrow> (Inr usage, s1)
      | (Inl err, s1) \<Rightarrow>
          if err = ErrUnauthorized \<or> err = ErrSessionExpired then (Inl err, s1)
          else fetchUsageOnce L key orgID (time_Sleep (2 * Second) s1))"
  by (simp add: FetchUsage_loop.simps [of L key orgID 0]
      FetchUsage_loop.simps [of L key orgID "Suc 0"]
      FetchUsage_loop.simps [of L key orgID "Suc (Suc 0)"]
      split: prod.splits sum.splits)

lemma FetchOrganizations_loop_unfold:
  "FetchOrganizations_loop L key 0 None s =
     (case fetchOrganizationsOnce L key s of
        (Inr orgs, s1) \<Rightarrow> (Inr orgs, s1)
      | (Inl err, s1) \<Rightarrow>
          if err = ErrUnauthorized \<or> err = ErrSessionExpired then (Inl err, s1)
          else fetchOrganizationsOnce L key (time_Sleep (2 * Second) s1))"
  by (simp add: FetchOrganizations_loop.simps [of L key 0]
      FetchOrganizations_loop.simps [of L key "Suc 0"]
      FetchOrganizations_loop.simps [of L key "Suc (Suc 0)"]
      split: prod.splits sum.splits)

text \<open>A failed single attempt changes nothing but the list of requests.\<close>

lemma fetchUsageOnce_error:
  "fetchUsageOnce L key orgID s = (Inl e, s') \<Longrightarrow>
     s' = s \<or> s' = s\<lparr>requests := requests s @
            [setHeaders (baseURL @ ''/api/organizations/'' @ orgID @ ''/usage'') key]\<rparr>"
  by (auto simp: fetchUsageOnce_def http_Do_def Let_def
      split: option.splits http_result.splits if_splits sum.splits)

lemma fetchUsageOnce_error_client:
  "fetchUsageOnce L key orgID s = (Inl e, s') \<Longrightarrow> client s' = client s"
  by (drule fetchUsageOnce_error) auto

lemma FetchUsage_loop_error_client:
  "FetchUsage_loop L key orgID attempt lastErr s = (Inl e, s') \<Longrightarrow> client s' = client s"
proof (induction L key orgID attempt lastErr s rule: FetchUsage_loop.induct)
  case (1 L key orgID attempt lastErr s)
  show ?case
  proof (cases "attempt < 2")
    case False
    with "1.prems" show ?thesis
      by (simp add: FetchUsage_loop.simps [of L key orgID attempt] split: option.splits)
  next
    case True
    let ?s1 = "if attempt > 0 then time_Sleep (2 * Second) s else s"
    obtain r s2 where once: "fetchUsageOnce L key orgID ?s1 = (r, s2)"
      by (cases "fetchUsageOnce L key orgID ?s1")
    show ?thesis
    proof (cases r)
      case (Inr u)
      with True once "1.prems" show ?thesis
        by (simp add: FetchUsage_loop.simps [of L key orgID attempt])
    next
      case (Inl err)
      with once have c2: "client s2 = client s"
        using fetchUsageOnce_error_client [of L key orgID ?s1 err s2]
        by (simp add: time_Sleep_fields split: if_splits)
      show ?thesis
      proof (cases "err = ErrUnauthorized \<or> err = ErrSessionExpired")
        case True
        with \<open>attempt < 2\<close> once Inl "1.prems" c2 show ?thesis
          by (auto simp add: FetchUsage_loop.simps [of L key orgID attempt])
      next
        case False
        with \<open>attempt < 2\<close> once Inl "1.prems"
        have "FetchUsage_loop L key orgID (attempt + 1) (Some err) s2 = (Inl e, s')"
          by (simp add: FetchUsage_loop.simps [of L key orgID attempt])
        with "1.IH" [OF \<open>attempt < 2\<close> once [symmetric] Inl] False c2 show ?thesis
          by auto
      qed
    qed
  qed
qed

section \<open>The claims\<close>

text \<open>
  C7. \<open>FetchUsage\<close> with an empty session key returns \<open>ErrNoSessionKey\<close>, and with a
  session key but an empty organization ID it returns the different error \<open>ErrNoOrgID\<close>;
  in both cases the state it returns is the state it was given, so no request was
  issued (and nothing else happened).
\<close>

theorem FetchUsage_missing_credentials:
  "(sessionKey (client s) = '''' \<longrightarrow> FetchUsage L s = (Inl ErrNoSessionKey, s)) \<and>
   (sessionKey (client s) \<noteq> '''' \<and> organizationID (client s) = '''' \<longrightarrow>
      FetchUsage L s = (Inl ErrNoOrgID, s)) \<and>
   ErrNoSessionKey \<noteq> ErrNoOrgID"
  by (simp add: FetchUsage_def)

theorem FetchUsage_missing_credentials_witness:
  "FetchUsage demoLib (SetSessionKey '''' (demoSystem (always (Response 200 usageBody))))
     = (Inl ErrNoSessionKey, SetSessionKey '''' (demoSystem (always (Response 200 usageBody)))) \<and>
   requests (snd (FetchUsage demoLib
      (SetSessionKey '''' (demoSystem (always (Response 200 usageBody)))))) = [] \<and>
   FetchUsage demoLib (SetOrganizationID '''' (demoSystem (always (Response 200 usageBody))))
     = (Inl ErrNoOrgID, SetOrganizationID '''' (demoSystem (always (Response 200 usageBody)))) \<and>
   requests (snd (FetchUsage demoLib
      (SetOrganizationID '''' (demoSystem (always (Response 200 usageBody)))))) = []"
proof -
  let ?n = "always (Response 200 usageBody)"
  have k1: "sessionKey (client (SetSessionKey '''' (demoSystem ?n))) = ''''"
    by (simp add: SetSessionKey_def)
  have k2: "sessionKey (client (SetOrganizationID '''' (demoSystem ?n))) \<noteq> '''' \<and>
            organizationID (client (SetOrganizationID '''' (demoSystem ?n))) = ''''"
    by (simp add: SetOrganizationID_def demoSystem_def)
  have r: "requests (SetSessionKey '''' (demoSystem ?n)) = []"
          "requests (SetOrganizationID '''' (demoSystem ?n)) = []"
    by (simp_all add: SetSessionKey_def SetOrganizationID_def demoSystem_def)
  from FetchUsage_missing_credentials [of "SetSessionKey '''' (demoSystem ?n)" demoLib] k1
  have a: "FetchUsage demoLib (SetSessionKey '''' (demoSystem ?n))
             = (Inl ErrNoSessionKey, SetSessionKey '''' (demoSystem ?n))"
    by blast
  from FetchUsage_missing_credentials [of "SetOrganizationID '''' (demoSystem ?n)" demoLib] k2
  have b: "FetchUsage demoLib (SetOrganizationID '''' (demoSystem ?n))
             = (Inl ErrNoOrgID, SetOrganizationID '''' (demoSystem ?n))"
    by blast
  show ?thesis
    by (simp add: a b r)
qed

text \<open>
  C10. When \<open>FetchUsage\<close> returns an error, of whatever kind and after one attempt or
  two, the cached snapshot and the time of the last fetch are what they were before the
  call.
\<close>

theorem FetchUsage_error_keeps_cache:
  "FetchUsage L s = (Inl e, s') \<Longrightarrow>
     GetLastUsage s' = GetLastUsage s \<and> GetLastFetchTime s' = GetLastFetchTime s"
  by (auto simp: FetchUsage_def GetLastUsage_def GetLastFetchTime_def split: if_splits
      dest: FetchUsage_loop_error_client)

theorem FetchUsage_error_keeps_cache_witness:
  "fst (FetchUsage demoLib (snd (FetchUsage demoLib (demoSystem (answersOnce (Response 503 '''')))))) =
     Inl ErrAPIUnavailable \<and>
   GetLastUsage (snd (FetchUsage demoLib (snd (FetchUsage demoLib (demoSystem (answersOnce (Response 503 ''''))))))) =
     GetLastUsage (snd (FetchUsage demoLib (demoSystem (answersOnce (Response 503 ''''))))) \<and>
   GetLastFetchTime (snd (FetchUsage demoLib (snd (FetchUsage demoLib (demoSystem (answersOnce (Response 503 ''''))))))) =
     GetLastFetchTime (snd (FetchUsage demoLib (demoSystem (answersOnce (Response 503 ''''))))) \<and>
   GetLastFetchTime (snd (FetchUsage demoLib (demoSystem (answersOnce (Response 503 ''''))))) = 1000"
proof -
  let ?s1 = "snd (FetchUsage demoLib (demoSystem (answersOnce (Response 503 ''''))))"
  have e: "fst (FetchUsage demoLib ?s1) = Inl ErrAPIUnavailable"
    by code_simp
  then have "FetchUsage demoLib ?s1 = (Inl ErrAPIUnavailable, snd (FetchUsage demoLib ?s1))"
    by (metis prod.collapse)
  from FetchUsage_error_keeps_cache [OF this]
  have k: "GetLastUsage (snd (FetchUsage demoLib ?s1)) = GetLastUsage ?s1 \<and>
           GetLastFetchTime (snd (FetchUsage demoLib ?s1)) = GetLastFetchTime ?s1" .
  have t: "GetLastFetchTime ?s1 = 1000"
    by code_simp
  from e k t show ?thesis
    by simp
qed

text \<open>
  C5. With a session key (and, for the usage, an organization ID) in place: when the
  first attempt fails with \<open>ErrUnauthorized\<close> or \<open>ErrSessionExpired\<close>, that error and the
  state after that one attempt are returned, so there is no sleep and no second attempt;
  when it fails with any other error, the client sleeps two seconds once and makes one
  more attempt, and what that attempt returns, result or error, is what the caller gets.
\<close>

theorem retry_once_unless_auth_error:
  assumes "sessionKey (client s) \<noteq> ''''"
  shows
    "(\<forall>e s1. fetchOrganizationsOnce L (sessionKey (client s)) s = (Inl e, s1) \<longrightarrow>
        FetchOrganizations L s =
          (if e = ErrUnauthorized \<or> e = ErrSessionExpired then (Inl e, s1)
           else fetchOrganizationsOnce L (sessionKey (client s)) (time_Sleep (2 * Second) s1))) \<and>
     (organizationID (client s) \<noteq> '''' \<longrightarrow>
       (\<forall>e s1. fetchUsageOnce L (sessionKey (client s)) (organizationID (client s)) s = (Inl e, s1) \<longrightarrow>
          FetchUsage L s =
            (if e = ErrUnauthorized \<or> e = ErrSessionExpired then (Inl e, s1)
             else fetchUsageOnce L (sessionKey (client s)) (organizationID (client s))
                    (time_Sleep (2 * Second) s1))))"
  using assms
  by (simp add: FetchOrganizations_def FetchUsage_def
      FetchOrganizations_loop_unfold FetchUsage_loop_unfold)

theorem retry_once_unless_auth_error_witness:
  "FetchOrganizations demoLib (demoSystem (failsOnce (Response 200 orgsBody))) =
     fetchOrganizationsOnce demoLib ''sk-ant-sid01-abc''
       (time_Sleep (2 * Second)
         (snd (fetchOrganizationsOnce demoLib ''sk-ant-sid01-abc''
                 (demoSystem (failsOnce (Response 200 orgsBody)))))) \<and>
   FetchUsage demoLib (demoSystem (failsOnce (Response 200 usageBody))) =
     fetchUsageOnce demoLib ''sk-ant-sid01-abc'' ''org-1''
       (time_Sleep (2 * Second)
         (snd (fetchUsageOnce demoLib ''sk-ant-sid01-abc'' ''org-1''
                 (demoSystem (failsOnce (Response 200 usageBody)))))) \<and>
   FetchUsage demoLib (demoSystem (always (Response 401 permissionBody))) =
     fetchUsageOnce demoLib ''sk-ant-sid01-abc'' ''org-1''
       (demoSystem (always (Response 401 permissionBody))) \<and>
   sleeps (snd (FetchUsage demoLib (demoSystem (failsOnce (Response 200 usageBody))))) = [2 * Second] \<and>
   length (requests (snd (FetchUsage demoLib (demoSystem (failsOnce (Response 200 usageBody)))))) = 2 \<and>
   sleeps (snd (FetchUsage demoLib (demoSystem (always (Response 401 permissionBody))))) = [] \<and>
   length (requests (snd (FetchUsage demoLib (demoSystem (always (Response 401 permissionBody)))))) = 1"
proof -
  let ?o = "demoSystem (failsOnce (Response 200 orgsBody))"
  let ?u = "demoSystem (failsOnce (Response 200 usageBody))"
  let ?a = "demoSystem (always (Response 401 permissionBody))"
  have key: "sessionKey (client (demoSystem n)) = ''sk-ant-sid01-abc''"
    and org: "organizationID (client (demoSystem n)) = ''org-1''" for n
    by (simp_all add: demoSystem_def)
  have ne: "sessionKey (client (demoSystem n)) \<noteq> ''''"
    and no: "organizationID (client (demoSystem n)) \<noteq> ''''" for n
    by (simp_all add: demoSystem_def)
  have fo: "fst (fetchOrganizationsOnce demoLib ''sk-ant-sid01-abc'' ?o) = Inl (ErrTransport ''connection reset'')"
    by code_simp
  have fu: "fst (fetchUsageOnce demoLib ''sk-ant-sid01-abc'' ''org-1'' ?u) = Inl (ErrTransport ''connection reset'')"
    by code_simp
  have fa: "fst (fetchUsageOnce demoLib ''sk-ant-sid01-abc'' ''org-1'' ?a) = Inl ErrUnauthorized"
    by code_simp
  have go: "fetchOrganizationsOnce demoLib (sessionKey (client ?o)) ?o =
      (Inl (ErrTransport ''connection reset''), snd (fetchOrganizationsOnce demoLib ''sk-ant-sid01-abc'' ?o))"
    using fo by (simp add: key prod_eq_iff)
  have gu: "fetchUsageOnce demoLib (sessionKey (client ?u)) (organizationID (client ?u)) ?u =
      (Inl (ErrTransport ''connection reset''), snd (fetchUsageOnce demoLib ''sk-ant-sid01-abc'' ''org-1'' ?u))"
    using fu by (simp add: key org prod_eq_iff)
  have ga: "fetchUsageOnce demoLib (sessionKey (client ?a)) (organizationID (client ?a)) ?a =
      (Inl ErrUnauthorized, snd (fetchUsageOnce demoLib ''sk-ant-sid01-abc'' ''org-1'' ?a))"
    using fa by (simp add: key org prod_eq_iff)
  have a: "FetchOrganizations demoLib ?o =
     fetchOrganizationsOnce demoLib ''sk-ant-sid01-abc''
       (time_Sleep (2 * Second) (snd (fetchOrganizationsOnce demoLib ''sk-ant-sid01-abc'' ?o)))"
    using retry_once_unless_auth_error [of ?o demoLib] ne go
    by (simp add: key)
  have b: "FetchUsage demoLib ?u =
     fetchUsageOnce demoLib ''sk-ant-sid01-abc'' ''org-1''
       (time_Sleep (2 * Second) (snd (fetchUsageOnce demoLib ''sk-ant-sid01-abc'' ''org-1'' ?u)))"
    using retry_once_unless_auth_error [of ?u demoLib] ne gu no
    by (simp add: key org)
  have c: "FetchUsage demoLib ?a = fetchUsageOnce demoLib ''sk-ant-sid01-abc'' ''org-1'' ?a"
    using retry_once_unless_auth_error [of ?a demoLib] ne ga no
    by (simp add: key org prod_eq_iff)
  have d: "sleeps (snd (FetchUsage demoLib ?u)) = [2 * Second]"
    "length (requests (snd (FetchUsage demoLib ?u))) = 2"
    "sleeps (snd (FetchUsage demoLib ?a)) = []"
    "length (requests (snd (FetchUsage demoLib ?a))) = 1"
    by code_simp+
  from a b c d show ?thesis
    by simp
qed

text \<open>With the URL accepted, one attempt issues one request and does not sleep.\<close>

lemma fetchUsageOnce_effects:
  assumes "url_error L (baseURL @ ''/api/organizations/'' @ orgID @ ''/usage'') = None"
  shows "requests (snd (fetchUsageOnce L key orgID s)) =
           requests s @ [setHeaders (baseURL @ ''/api/organizations/'' @ orgID @ ''/usage'') key]"
    and "sleeps (snd (fetchUsageOnce L key orgID s)) = sleeps s"
    and "net (snd (fetchUsageOnce L key orgID s)) = net s"
  using assms
  by (simp_all add: fetchUsageOnce_def http_Do_def Let_def
      split: option.splits http_result.splits sum.splits)

lemma fetchUsageOnce_status:
  assumes "url_error L (baseURL @ ''/api/organizations/'' @ orgID @ ''/usage'') = None"
    and "net s (length (requests s))
           (setHeaders (baseURL @ ''/api/organizations/'' @ orgID @ ''/usage'') key) = Response st body"
    and "st = 429 \<or> st \<ge> 500"
  shows "fetchUsageOnce L key orgID s =
           (Inl (if st = 429 then ErrRateLimited else ErrAPIUnavailable),
            s\<lparr>requests := requests s @
               [setHeaders (baseURL @ ''/api/organizations/'' @ orgID @ ''/usage'') key]\<rparr>)"
  using assms
  by (auto simp add: fetchUsageOnce_def http_Do_def)

text \<open>
  C1, as the code has it. With the credentials in place and the URL accepted, a first
  attempt that is answered with status 429 or with a status of 500 or more is classified
  as \<open>ErrRateLimited\<close> or \<open>ErrAPIUnavailable\<close>; neither is an authentication error, so the
  client sleeps two seconds and asks once more. Two requests are issued, one sleep of two
  seconds happens, and the caller gets what the second attempt gives: \<open>ErrRateLimited\<close>
  if the answer is 429 again, \<open>ErrAPIUnavailable\<close> if it is 500 or more again.
\<close>

theorem FetchUsage_retries_429_and_5xx:
  assumes "sessionKey (client s) = key" and "key \<noteq> ''''"
    and "organizationID (client s) = orgID" and "orgID \<noteq> ''''"
    and "req = setHeaders (baseURL @ ''/api/organizations/'' @ orgID @ ''/usage'') key"
    and "url_error L (baseURL @ ''/api/organizations/'' @ orgID @ ''/usage'') = None"
    and "net s (length (requests s)) req = Response st body"
    and "st = 429 \<or> st \<ge> 500"
  shows "fst (fetchUsageOnce L key orgID s) = Inl (if st = 429 then ErrRateLimited else ErrAPIUnavailable) \<and>
         FetchUsage L s =
           fetchUsageOnce L key orgID (time_Sleep (2 * Second) (s\<lparr>requests := requests s @ [req]\<rparr>)) \<and>
         requests (snd (FetchUsage L s)) = requests s @ [req, req] \<and>
         sleeps (snd (FetchUsage L s)) = sleeps s @ [2 * Second] \<and>
         (\<forall>st2 body2. net s (Suc (length (requests s))) req = Response st2 body2 \<and> (st2 = 429 \<or> st2 \<ge> 500) \<longrightarrow>
            fst (FetchUsage L s) = Inl (if st2 = 429 then ErrRateLimited else ErrAPIUnavailable))"
proof -
  let ?s1 = "s\<lparr>requests := requests s @ [req]\<rparr>"
  let ?s2 = "time_Sleep (2 * Second) ?s1"
  have once: "fetchUsageOnce L key orgID s =
      (Inl (if st = 429 then ErrRateLimited else ErrAPIUnavailable), ?s1)"
    using assms(5-8) fetchUsageOnce_status [of L orgID s key st body] by simp
  have eq: "FetchUsage L s = fetchUsageOnce L key orgID ?s2"
    using assms(1-4) once by (simp add: FetchUsage_def FetchUsage_loop_unfold)
  have rq: "requests (snd (FetchUsage L s)) = requests s @ [req, req]"
    using eq assms(5,6) fetchUsageOnce_effects(1) [of L orgID key ?s2]
    by (simp add: time_Sleep_def)
  have sl: "sleeps (snd (FetchUsage L s)) = sleeps s @ [2 * Second]"
    using eq assms(6) fetchUsageOnce_effects(2) [of L orgID key ?s2]
    by (simp add: time_Sleep_def)
  have again: "fst (FetchUsage L s) = Inl (if st2 = 429 then ErrRateLimited else ErrAPIUnavailable)"
    if "net s (Suc (length (requests s))) req = Response st2 body2" and "st2 = 429 \<or> st2 \<ge> 500"
    for st2 body2
  proof -
    have "net ?s2 (length (requests ?s2)) req = Response st2 body2"
      using that(1) by (simp add: time_Sleep_def)
    with assms(5,6) that(2) fetchUsageOnce_status [of L orgID ?s2 key st2 body2]
    show ?thesis
      by (simp add: eq)
  qed
  from once eq rq sl again show ?thesis
    by auto
qed

theorem FetchUsage_retries_429_and_5xx_witness:
  "fst (FetchUsage demoLib (demoSystem (always (Response 429 '''')))) = Inl ErrRateLimited \<and>
   requests (snd (FetchUsage demoLib (demoSystem (always (Response 429 ''''))))) =
     [setHeaders (baseURL @ ''/api/organizations/'' @ ''org-1'' @ ''/usage'') ''sk-ant-sid01-abc'',
      setHeaders (baseURL @ ''/api/organizations/'' @ ''org-1'' @ ''/usage'') ''sk-ant-sid01-abc''] \<and>
   sleeps (snd (FetchUsage demoLib (demoSystem (always (Response 429 ''''))))) = [2 * Second]"
proof -
  let ?s = "demoSystem (always (Response 429 ''''))"
  let ?req = "setHeaders (baseURL @ ''/api/organizations/'' @ ''org-1'' @ ''/usage'') ''sk-ant-sid01-abc''"
  have h: "sessionKey (client ?s) = ''sk-ant-sid01-abc''" "''sk-ant-sid01-abc'' \<noteq> ''''"
    "organizationID (client ?s) = ''org-1''" "''org-1'' \<noteq> ''''"
    "url_error demoLib (baseURL @ ''/api/organizations/'' @ ''org-1'' @ ''/usage'') = None"
    "net ?s (length (requests ?s)) ?req = Response 429 ''''"
    "net ?s (Suc (length (requests ?s))) ?req = Response 429 ''''"
    "requests ?s = []" "sleeps ?s = []"
    by (simp_all add: demoSystem_def demoLib_def always_def)
  have "(429::int) = 429 \<or> (429::int) \<ge> 500"
    by simp
  from FetchUsage_retries_429_and_5xx [OF h(1-4) refl h(5,6) this] h(7-9)
  show ?thesis
    by auto
qed

text \<open>
  The claim C1 as it was stated fails: against a service that answers 429, one call of
  \<open>FetchUsage\<close> does not stop at one request without a delay.
\<close>

theorem FetchUsage_no_retry_on_429_counterexample:
  "net (demoSystem (always (Response 429 ''''))) 0
     (setHeaders (baseURL @ ''/api/organizations/'' @ ''org-1'' @ ''/usage'') ''sk-ant-sid01-abc'') = Response 429 '''' \<and>
   fst (FetchUsage demoLib (demoSystem (always (Response 429 '''')))) = Inl ErrRateLimited \<and>
   \<not> (length (requests (snd (FetchUsage demoLib (demoSystem (always (Response 429 '''')))))) = 1 \<and>
      sleeps (snd (FetchUsage demoLib (demoSystem (always (Response 429 ''''))))) = [])"
proof -
  have "net (demoSystem (always (Response 429 ''''))) 0
     (setHeaders (baseURL @ ''/api/organizations/'' @ ''org-1'' @ ''/usage'') ''sk-ant-sid01-abc'') = Response 429 ''''"
    by (simp add: demoSystem_def always_def)
  moreover have "fst (FetchUsage demoLib (demoSystem (always (Response 429 '''')))) = Inl ErrRateLimited"
    by code_simp
  moreover have "length (requests (snd (FetchUsage demoLib (demoSystem (always (Response 429 '''')))))) = 2"
    by code_simp
  ultimately show ?thesis
    by simp
qed

text \<open>
  C6. A response with status 401 or 403 makes a single attempt fail with
  \<open>ErrSessionExpired\<close> when the body decodes as an API error whose
  \<open>error.details.error_code\<close> is \<open>account_session_invalid\<close>, and with \<open>ErrUnauthorized\<close>
  when it decodes with any other code or does not decode. With credentials in place
  \<open>FetchUsage\<close> returns that error after this one request.
\<close>

theorem auth_status_classification:
  assumes "url_error L (baseURL @ ''/api/organizations/'' @ orgID @ ''/usage'') = None"
    and "net s (length (requests s))
           (setHeaders (baseURL @ ''/api/organizations/'' @ orgID @ ''/usage'') key) = Response st body"
    and "st = 401 \<or> st = 403"
  shows "fst (fetchUsageOnce L key orgID s) =
           Inl (case json_APIError L body of
                  None \<Rightarrow> ErrUnauthorized
                | Some apiErr \<Rightarrow>
                    if Error_Details_ErrorCode apiErr = ''account_session_invalid''
                    then ErrSessionExpired else ErrUnauthorized) \<and>
         (sessionKey (client s) = key \<and> key \<noteq> '''' \<and> organizationID (client s) = orgID \<and> orgID \<noteq> '''' \<longrightarrow>
            FetchUsage L s =
              (fst (fetchUsageOnce L key orgID s),
               s\<lparr>requests := requests s @
                  [setHeaders (baseURL @ ''/api/organizations/'' @ orgID @ ''/usage'') key]\<rparr>))"
  using assms
  by (auto simp add: fetchUsageOnce_def http_Do_def parseAPIError_def FetchUsage_def
      FetchUsage_loop_unfold split: option.splits)

theorem auth_status_classification_witness:
  "fst (FetchUsage demoLib (demoSystem (always (Response 401 sessionInvalidBody)))) = Inl ErrSessionExpired \<and>
   fst (FetchUsage demoLib (demoSystem (always (Response 401 permissionBody)))) = Inl ErrUnauthorized \<and>
   fst (FetchUsage demoLib (demoSystem (always (Response 403 ''<html>Just a moment...</html>'')))) = Inl ErrUnauthorized \<and>
   length (requests (snd (FetchUsage demoLib (demoSystem (always (Response 401 sessionInvalidBody)))))) = 1"
proof -
  let ?url = "baseURL @ ''/api/organizations/'' @ ''org-1'' @ ''/usage''"
  have u: "url_error demoLib ?url = None"
    by (simp add: demoLib_def)
  have c: "sessionKey (client (demoSystem n)) = ''sk-ant-sid01-abc'' \<and> ''sk-ant-sid01-abc'' \<noteq> '''' \<and>
           organizationID (client (demoSystem n)) = ''org-1'' \<and> ''org-1'' \<noteq> ''''" for n
    by (simp add: demoSystem_def)
  have n: "net (demoSystem (always r)) (length (requests (demoSystem (always r)))) q = r" for r q
    by (simp add: demoSystem_def always_def)
  have d: "json_APIError demoLib sessionInvalidBody =
             Some \<lparr>apiType = '''', Error_Type = '''', Error_Message = '''',
                   Error_Details_ErrorCode = ''account_session_invalid''\<rparr>"
    "json_APIError demoLib permissionBody =
             Some \<lparr>apiType = '''', Error_Type = '''', Error_Message = '''',
                   Error_Details_ErrorCode = ''permission_denied''\<rparr>"
    "json_APIError demoLib ''<html>Just a moment...</html>'' = None"
    by (simp_all add: demoLib_def sessionInvalidBody_def permissionBody_def)
  have r: "requests (demoSystem n) = []" for n
    by (simp add: demoSystem_def)
  from auth_status_classification [OF u n, of 401 "''sk-ant-sid01-abc''" sessionInvalidBody] c d(1)
  have a: "FetchUsage demoLib (demoSystem (always (Response 401 sessionInvalidBody))) =
     (Inl ErrSessionExpired, (demoSystem (always (Response 401 sessionInvalidBody)))
        \<lparr>requests := requests (demoSystem (always (Response 401 sessionInvalidBody))) @ [setHeaders ?url ''sk-ant-sid01-abc'']\<rparr>)"
    by simp
  from auth_status_classification [OF u n, of 401 "''sk-ant-sid01-abc''" permissionBody] c d(2)
  have b: "fst (FetchUsage demoLib (demoSystem (always (Response 401 permissionBody)))) = Inl ErrUnauthorized"
    by simp
  from auth_status_classification [OF u n, of 403 "''sk-ant-sid01-abc''" "''<html>Just a moment...</html>''"] c d(3)
  have e: "fst (FetchUsage demoLib (demoSystem (always (Response 403 ''<html>Just a moment...</html>'')))) = Inl ErrUnauthorized"
    by simp
  from a b e r show ?thesis
    by simp
qed

section \<open>Thresholds\<close>

lemma highestCrossedThreshold_loop_Max:
  "highestCrossedThreshold_loop u T h = Max (insert h (set (filter (\<lambda>t. t \<le> u) T)))"
proof (induction T arbitrary: h)
  case Nil
  show ?case by simp
next
  case (Cons t T)
  let ?S = "set (filter (\<lambda>t. t \<le> u) T)"
  have fin: "finite ?S" by simp
  show ?case
  proof (cases "t \<le> u")
    case False
    then show ?thesis by (simp add: Cons.IH)
  next
    case True
    have "Max (insert (max h t) ?S) = Max (insert h (insert t ?S))"
      using fin by (cases "?S = {}") (simp_all add: max.assoc)
    moreover have "(if u \<ge> t \<and> t > h then t else h) = max h t"
      using True by (simp add: max_def)
    ultimately show ?thesis
      using True by (simp add: Cons.IH)
  qed
qed

text \<open>
  For any thresholds the result is the greatest of 0 and the thresholds that the
  utilization reaches.
\<close>

lemma highestCrossedThreshold_Max:
  "highestCrossedThreshold u T = Max (insert 0 {t \<in> set T. t \<le> u})"
  by (simp add: highestCrossedThreshold_def highestCrossedThreshold_loop_Max)

text \<open>
  C4, as the code has it. When no threshold is negative, \<open>highestCrossedThreshold u T\<close>
  is the greatest threshold that is at most \<open>u\<close>, and 0 when there is none.
\<close>

theorem highestCrossedThreshold_nonneg:
  assumes "\<forall>t \<in> set T. 0 \<le> t"
  shows "highestCrossedThreshold u T = spec_highestCrossed u T"
proof (cases "filter (\<lambda>t. t \<le> u) T = []")
  case True
  then show ?thesis
    by (simp add: highestCrossedThreshold_def highestCrossedThreshold_loop_Max spec_highestCrossed_def)
next
  case False
  let ?S = "set (filter (\<lambda>t. t \<le> u) T)"
  from False have ne: "?S \<noteq> {}" by (simp only: set_empty not_False_eq_True)
  have "Max ?S \<in> ?S"
    using ne by (intro Max_in) simp_all
  with assms have "0 \<le> Max ?S" by auto
  then have "Max (insert 0 ?S) = Max ?S"
    using ne by (simp add: max_def)
  with False show ?thesis
    by (simp add: highestCrossedThreshold_def highestCrossedThreshold_loop_Max spec_highestCrossed_def)
qed

theorem highestCrossedThreshold_nonneg_witness:
  "highestCrossedThreshold 80 [50, 75, 90] = 75 \<and>
   spec_highestCrossed 80 [50, 75, 90] = 75 \<and>
   highestCrossedThreshold 40 [50, 75, 90] = 0"
proof -
  have h: "\<forall>t \<in> set [50, 75, 90 :: real]. 0 \<le> t"
    by simp
  have a: "spec_highestCrossed 80 [50, 75, 90] = 75"
    "spec_highestCrossed 40 [50, 75, 90] = 0"
    by (simp_all add: spec_highestCrossed_def)
  from highestCrossedThreshold_nonneg [OF h, of 80] highestCrossedThreshold_nonneg [OF h, of 40] a h
  show ?thesis
    by simp
qed

text \<open>
  The claim C4 as it was stated, for every set of thresholds, fails at a negative
  threshold: the code starts its search at 0 and never returns less.
\<close>

theorem highestCrossedThreshold_counterexample:
  "highestCrossedThreshold 10 [-5] = 0 \<and> spec_highestCrossed 10 [-5] = -5"
  by (simp add: highestCrossedThreshold_def spec_highestCrossed_def)

section \<open>Notifications\<close>

lemma checkSession_effect:
  "checkSession usage s =
     s\<lparr>app := (app s)\<lparr>lastSessionThreshold :=
            highestCrossedThreshold (Utilization (FiveHour usage)) (AlertThresholds (config s))\<rparr>,
       ui := ui s @
         (if highestCrossedThreshold (Utilization (FiveHour usage)) (AlertThresholds (config s))
               > lastSessionThreshold (app s)
          then [SessionNotification (Utilization (FiveHour usage))
                  (highestCrossedThreshold (Utilization (FiveHour usage)) (AlertThresholds (config s)))]
          else [])\<rparr>"
  by (simp add: checkSession_def SendNotification_def Let_def)

lemma checkWeekly_effect:
  "checkWeekly usage s =
     s\<lparr>app := (app s)\<lparr>lastWeeklyThreshold :=
            highestCrossedThreshold (Utilization (SevenDay usage)) (AlertThresholds (config s))\<rparr>,
       ui := ui s @
         (if highestCrossedThreshold (Utilization (SevenDay usage)) (AlertThresholds (config s))
               > lastWeeklyThreshold (app s)
          then [WeeklyNotification (Utilization (SevenDay usage))
                  (highestCrossedThreshold (Utilization (SevenDay usage)) (AlertThresholds (config s)))]
          else [])\<rparr>"
  by (simp add: checkWeekly_def SendNotification_def Let_def)

lemma sessionThresholds_append:
  "sessionThresholds (xs @ ys) = sessionThresholds xs @ sessionThresholds ys"
  by (induction xs rule: sessionThresholds.induct) simp_all

lemma weeklyThresholds_append:
  "weeklyThresholds (xs @ ys) = weeklyThresholds xs @ weeklyThresholds ys"
  by (induction xs rule: weeklyThresholds.induct) simp_all

lemma highestCrossedThreshold_mono:
  assumes "u \<le> u'"
  shows "highestCrossedThreshold u T \<le> highestCrossedThreshold u' T"
proof -
  have "insert 0 {t \<in> set T. t \<le> u} \<subseteq> insert 0 {t \<in> set T. t \<le> u'}"
    using assms by auto
  then have "Max (insert 0 {t \<in> set T. t \<le> u}) \<le> Max (insert 0 {t \<in> set T. t \<le> u'})"
    by (intro Max_mono) simp_all
  then show ?thesis
    by (simp add: highestCrossedThreshold_Max)
qed

lemma sorted_map_mono_fun:
  assumes "\<And>a b. a \<le> b \<Longrightarrow> f a \<le> f b" and "sorted (map g xs)"
  shows "sorted (map (\<lambda>x. f (g x)) xs)"
  using assms(2) by (induction xs) (auto intro: assms(1))

text \<open>The check never changes the configuration, so its gate stays as it is over a run.\<close>

lemma checkAndNotify_config: "config (checkAndNotify usage s) = config s"
  by (simp add: checkAndNotify_def checkSession_effect checkWeekly_effect)

lemma notifyAll_config: "config (notifyAll us s) = config s"
  by (induction us arbitrary: s) (simp_all add: checkAndNotify_config)

lemma notifyAll_snoc: "notifyAll (us @ [u]) s = checkAndNotify u (notifyAll us s)"
  by (induction us arbitrary: s) simp_all

text \<open>One check with the gate open: what is sent, and the records afterwards.\<close>

lemma checkAndNotify_open:
  assumes "NotificationsEnabled (config s)" and "AlertThresholds (config s) \<noteq> []"
  shows "ui (checkAndNotify usage s) =
        ui s @
        (if highestCrossedThreshold (Utilization (FiveHour usage)) (AlertThresholds (config s))
              > lastSessionThreshold (app s)
         then [SessionNotification (Utilization (FiveHour usage))
                 (highestCrossedThreshold (Utilization (FiveHour usage)) (AlertThresholds (config s)))]
         else []) @
        (if highestCrossedThreshold (Utilization (SevenDay usage)) (AlertThresholds (config s))
              > lastWeeklyThreshold (app s)
         then [WeeklyNotification (Utilization (SevenDay usage))
                 (highestCrossedThreshold (Utilization (SevenDay usage)) (AlertThresholds (config s)))]
         else [])"
    and "lastSessionThreshold (app (checkAndNotify usage s)) =
        highestCrossedThreshold (Utilization (FiveHour usage)) (AlertThresholds (config s))"
    and "lastWeeklyThreshold (app (checkAndNotify usage s)) =
        highestCrossedThreshold (Utilization (SevenDay usage)) (AlertThresholds (config s))"
  using assms by (simp_all add: checkAndNotify_def checkSession_effect checkWeekly_effect)

lemma checkAndNotify_emitted:
  assumes "NotificationsEnabled (config s)" and "AlertThresholds (config s) \<noteq> []"
  shows "sessionThresholds (emitted s (checkAndNotify usage s)) =
        (if highestCrossedThreshold (Utilization (FiveHour usage)) (AlertThresholds (config s))
              > lastSessionThreshold (app s)
         then [highestCrossedThreshold (Utilization (FiveHour usage)) (AlertThresholds (config s))]
         else [])"
    and "weeklyThresholds (emitted s (checkAndNotify usage s)) =
        (if highestCrossedThreshold (Utilization (SevenDay usage)) (AlertThresholds (config s))
              > lastWeeklyThreshold (app s)
         then [highestCrossedThreshold (Utilization (SevenDay usage)) (AlertThresholds (config s))]
         else [])"
  by (simp_all add: emitted_def checkAndNotify_open(1) [OF assms])

lemma checkAndNotify_ui_grows: "\<exists>es. ui (checkAndNotify usage s) = ui s @ es"
  by (simp add: checkAndNotify_def checkSession_effect checkWeekly_effect)

lemma notifyAll_ui_grows: "\<exists>es. ui (notifyAll us s) = ui s @ es"
proof (induction us arbitrary: s)
  case Nil
  show ?case by simp
next
  case (Cons u us)
  obtain a where a: "ui (checkAndNotify u s) = ui s @ a"
    using checkAndNotify_ui_grows by blast
  obtain b where "ui (notifyAll us (checkAndNotify u s)) = ui (checkAndNotify u s) @ b"
    using Cons.IH by blast
  with a show ?case by simp
qed

lemma emitted_Cons:
  "emitted s (notifyAll (u # us) s) =
     emitted s (checkAndNotify u s) @ emitted (checkAndNotify u s) (notifyAll us (checkAndNotify u s))"
proof -
  obtain a where a: "ui (checkAndNotify u s) = ui s @ a"
    using checkAndNotify_ui_grows by blast
  obtain b where b: "ui (notifyAll us (checkAndNotify u s)) = ui (checkAndNotify u s) @ b"
    using notifyAll_ui_grows by blast
  show ?thesis
    by (simp add: emitted_def a b)
qed

text \<open>The record after a run with the gate open is the value crossed at its last tick.\<close>

lemma notifyAll_records:
  assumes "NotificationsEnabled (config s)" and "AlertThresholds (config s) \<noteq> []"
  shows "lastSessionThreshold (app (notifyAll us s)) =
           (if us = [] then lastSessionThreshold (app s)
            else highestCrossedThreshold (Utilization (FiveHour (last us))) (AlertThresholds (config s)))"
    and "lastWeeklyThreshold (app (notifyAll us s)) =
           (if us = [] then lastWeeklyThreshold (app s)
            else highestCrossedThreshold (Utilization (SevenDay (last us))) (AlertThresholds (config s)))"
proof -
  have open_run: "NotificationsEnabled (config (notifyAll vs s))"
    "AlertThresholds (config (notifyAll vs s)) \<noteq> []" for vs
    using assms by (simp_all add: notifyAll_config)
  show "lastSessionThreshold (app (notifyAll us s)) =
           (if us = [] then lastSessionThreshold (app s)
            else highestCrossedThreshold (Utilization (FiveHour (last us))) (AlertThresholds (config s)))"
    using checkAndNotify_open(2) [OF open_run]
    by (cases us rule: rev_cases) (simp_all add: notifyAll_snoc notifyAll_config)
  show "lastWeeklyThreshold (app (notifyAll us s)) =
           (if us = [] then lastWeeklyThreshold (app s)
            else highestCrossedThreshold (Utilization (SevenDay (last us))) (AlertThresholds (config s)))"
    using checkAndNotify_open(3) [OF open_run]
    by (cases us rule: rev_cases) (simp_all add: notifyAll_snoc notifyAll_config)
qed

text \<open>
  A run over which the value crossed never falls, begun at or below it: the thresholds
  notified rise strictly, and all lie above the record the run began with.
\<close>

lemma session_run_rising:
  assumes "NotificationsEnabled (config s)" and "AlertThresholds (config s) \<noteq> []"
    and "sorted (map (\<lambda>u. highestCrossedThreshold (Utilization (FiveHour u)) (AlertThresholds (config s))) us)"
    and "\<forall>u \<in> set us. lastSessionThreshold (app s)
           \<le> highestCrossedThreshold (Utilization (FiveHour u)) (AlertThresholds (config s))"
  shows "sorted_wrt (<) (sessionThresholds (emitted s (notifyAll us s))) \<and>
         (\<forall>t \<in> set (sessionThresholds (emitted s (notifyAll us s))). lastSessionThreshold (app s) < t)"
  using assms
proof (induction us arbitrary: s)
  case Nil
  show ?case by (simp add: emitted_def)
next
  case (Cons u us)
  let ?T = "AlertThresholds (config s)"
  let ?c = "highestCrossedThreshold (Utilization (FiveHour u)) ?T"
  let ?s1 = "checkAndNotify u s"
  let ?rest = "sessionThresholds (emitted ?s1 (notifyAll us ?s1))"
  have cfg: "config ?s1 = config s"
    by (rule checkAndNotify_config)
  have rec1: "lastSessionThreshold (app ?s1) = ?c"
    by (rule checkAndNotify_open(2) [OF Cons.prems(1,2)])
  have le: "lastSessionThreshold (app s) \<le> ?c"
    using Cons.prems(4) by simp
  have tail: "sorted (map (\<lambda>u. highestCrossedThreshold (Utilization (FiveHour u)) ?T) us)"
    and head: "\<forall>v \<in> set us. ?c \<le> highestCrossedThreshold (Utilization (FiveHour v)) ?T"
    using Cons.prems(3) by simp_all
  have ih: "sorted_wrt (<) ?rest \<and> (\<forall>t \<in> set ?rest. lastSessionThreshold (app ?s1) < t)"
  proof (rule Cons.IH)
    show "NotificationsEnabled (config ?s1)" "AlertThresholds (config ?s1) \<noteq> []"
      using Cons.prems(1,2) by (simp_all add: cfg)
    show "sorted (map (\<lambda>u. highestCrossedThreshold (Utilization (FiveHour u))
        (AlertThresholds (config ?s1))) us)"
      using tail by (simp only: cfg)
    show "\<forall>v \<in> set us. lastSessionThreshold (app ?s1)
        \<le> highestCrossedThreshold (Utilization (FiveHour v)) (AlertThresholds (config ?s1))"
      using head by (simp only: cfg rec1)
  qed
  have first: "sessionThresholds (emitted s ?s1) = (if ?c > lastSessionThreshold (app s) then [?c] else [])"
    by (rule checkAndNotify_emitted(1) [OF Cons.prems(1,2)])
  have all: "sessionThresholds (emitted s (notifyAll (u # us) s)) =
      (if ?c > lastSessionThreshold (app s) then [?c] else []) @ ?rest"
    by (simp only: emitted_Cons sessionThresholds_append first)
  show ?case
  proof (cases "?c > lastSessionThreshold (app s)")
    case True
    with ih le show ?thesis
      unfolding all rec1 by auto
  next
    case False
    with le have "lastSessionThreshold (app s) = ?c" by simp
    with ih False show ?thesis
      unfolding all rec1 by simp
  qed
qed

lemma session_run_distinct:
  assumes "NotificationsEnabled (config s)" and "AlertThresholds (config s) \<noteq> []"
    and "sorted (map (\<lambda>u. Utilization (FiveHour u)) us)"
  shows "sorted_wrt (<) (sessionThresholds (emitted s (notifyAll us s)))"
proof (cases us)
  case Nil
  then show ?thesis by (simp add: emitted_def)
next
  case (Cons u vs)
  let ?T = "AlertThresholds (config s)"
  let ?c = "highestCrossedThreshold (Utilization (FiveHour u)) ?T"
  let ?s1 = "checkAndNotify u s"
  let ?rest = "sessionThresholds (emitted ?s1 (notifyAll vs ?s1))"
  have cfg: "config ?s1 = config s"
    by (rule checkAndNotify_config)
  have rec1: "lastSessionThreshold (app ?s1) = ?c"
    by (rule checkAndNotify_open(2) [OF assms(1,2)])
  have so: "sorted (map (\<lambda>u. highestCrossedThreshold (Utilization (FiveHour u)) ?T) us)"
    using assms(3) by (rule sorted_map_mono_fun [rotated]) (rule highestCrossedThreshold_mono)
  have tail: "sorted (map (\<lambda>u. highestCrossedThreshold (Utilization (FiveHour u)) ?T) vs)"
    and head: "\<forall>v \<in> set vs. ?c \<le> highestCrossedThreshold (Utilization (FiveHour v)) ?T"
    using so unfolding Cons by simp_all
  have rest: "sorted_wrt (<) ?rest \<and> (\<forall>t \<in> set ?rest. lastSessionThreshold (app ?s1) < t)"
  proof (rule session_run_rising)
    show "NotificationsEnabled (config ?s1)" "AlertThresholds (config ?s1) \<noteq> []"
      using assms(1,2) by (simp_all add: cfg)
    show "sorted (map (\<lambda>u. highestCrossedThreshold (Utilization (FiveHour u))
        (AlertThresholds (config ?s1))) vs)"
      using tail by (simp only: cfg)
    show "\<forall>v \<in> set vs. lastSessionThreshold (app ?s1)
        \<le> highestCrossedThreshold (Utilization (FiveHour v)) (AlertThresholds (config ?s1))"
      using head by (simp only: cfg rec1)
  qed
  have first: "sessionThresholds (emitted s ?s1) = (if ?c > lastSessionThreshold (app s) then [?c] else [])"
    by (rule checkAndNotify_emitted(1) [OF assms(1,2)])
  have all: "sessionThresholds (emitted s (notifyAll (u # vs) s)) =
      (if ?c > lastSessionThreshold (app s) then [?c] else []) @ ?rest"
    by (simp only: emitted_Cons sessionThresholds_append first)
  show ?thesis
    using rest unfolding Cons all rec1
    by (cases "?c > lastSessionThreshold (app s)") auto
qed

text \<open>A tick at the end of a run: the run before it ends where the gate is as at its start.\<close>

lemma session_tick_in_run:
  assumes "NotificationsEnabled (config s)" and "AlertThresholds (config s) \<noteq> []"
  shows "sessionThresholds (emitted (notifyAll us s) (notifyAll (us @ [u]) s)) =
     (if highestCrossedThreshold (Utilization (FiveHour u)) (AlertThresholds (config s))
           > (if us = [] then lastSessionThreshold (app s)
              else highestCrossedThreshold (Utilization (FiveHour (last us))) (AlertThresholds (config s)))
      then [highestCrossedThreshold (Utilization (FiveHour u)) (AlertThresholds (config s))]
      else [])"
proof -
  have o: "NotificationsEnabled (config (notifyAll us s))" "AlertThresholds (config (notifyAll us s)) \<noteq> []"
    using assms by (simp_all add: notifyAll_config)
  show ?thesis
    using checkAndNotify_emitted(1) [OF o, of u] notifyAll_records(1) [OF assms, of us]
    by (simp only: notifyAll_snoc notifyAll_config)
qed

text \<open>The same three facts for the weekly metric.\<close>

lemma weekly_run_rising:
  assumes "NotificationsEnabled (config s)" and "AlertThresholds (config s) \<noteq> []"
    and "sorted (map (\<lambda>u. highestCrossedThreshold (Utilization (SevenDay u)) (AlertThresholds (config s))) us)"
    and "\<forall>u \<in> set us. lastWeeklyThreshold (app s)
           \<le> highestCrossedThreshold (Utilization (SevenDay u)) (AlertThresholds (config s))"
  shows "sorted_wrt (<) (weeklyThresholds (emitted s (notifyAll us s))) \<and>
         (\<forall>t \<in> set (weeklyThresholds (emitted s (notifyAll us s))). lastWeeklyThreshold (app s) < t)"
  using assms
proof (induction us arbitrary: s)
  case Nil
  show ?case by (simp add: emitted_def)
next
  case (Cons u us)
  let ?T = "AlertThresholds (config s)"
  let ?c = "highestCrossedThreshold (Utilization (SevenDay u)) ?T"
  let ?s1 = "checkAndNotify u s"
  let ?rest = "weeklyThresholds (emitted ?s1 (notifyAll us ?s1))"
  have cfg: "config ?s1 = config s"
    by (rule checkAndNotify_config)
  have rec1: "lastWeeklyThreshold (app ?s1) = ?c"
    by (rule checkAndNotify_open(3) [OF Cons.prems(1,2)])
  have le: "lastWeeklyThreshold (app s) \<le> ?c"
    using Cons.prems(4) by simp
  have tail: "sorted (map (\<lambda>u. highestCrossedThreshold (Utilization (SevenDay u)) ?T) us)"
    and head: "\<forall>v \<in> set us. ?c \<le> highestCrossedThreshold (Utilization (SevenDay v)) ?T"
    using Cons.prems(3) by simp_all
  have ih: "sorted_wrt (<) ?rest \<and> (\<forall>t \<in> set ?rest. lastWeeklyThreshold (app ?s1) < t)"
  proof (rule Cons.IH)
    show "NotificationsEnabled (config ?s1)" "AlertThresholds (config ?s1) \<noteq> []"
      using Cons.prems(1,2) by (simp_all add: cfg)
    show "sorted (map (\<lambda>u. highestCrossedThreshold (Utilization (SevenDay u))
        (AlertThresholds (config ?s1))) us)"
      using tail by (simp only: cfg)
    show "\<forall>v \<in> set us. lastWeeklyThreshold (app ?s1)
        \<le> highestCrossedThreshold (Utilization (SevenDay v)) (AlertThresholds (config ?s1))"
      using head by (simp only: cfg rec1)
  qed
  have first: "weeklyThresholds (emitted s ?s1) = (if ?c > lastWeeklyThreshold (app s) then [?c] else [])"
    by (rule checkAndNotify_emitted(2) [OF Cons.prems(1,2)])
  have all: "weeklyThresholds (emitted s (notifyAll (u # us) s)) =
      (if ?c > lastWeeklyThreshold (app s) then [?c] else []) @ ?rest"
    by (simp only: emitted_Cons weeklyThresholds_append first)
  show ?case
  proof (cases "?c > lastWeeklyThreshold (app s)")
    case True
    with ih le show ?thesis
      unfolding all rec1 by auto
  next
    case False
    with le have "lastWeeklyThreshold (app s) = ?c" by simp
    with ih False show ?thesis
      unfolding all rec1 by simp
  qed
qed

lemma weekly_run_distinct:
  assumes "NotificationsEnabled (config s)" and "AlertThresholds (config s) \<noteq> []"
    and "sorted (map (\<lambda>u. Utilization (SevenDay u)) us)"
  shows "sorted_wrt (<) (weeklyThresholds (emitted s (notifyAll us s)))"
proof (cases us)
  case Nil
  then show ?thesis by (simp add: emitted_def)
next
  case (Cons u vs)
  let ?T = "AlertThresholds (config s)"
  let ?c = "highestCrossedThreshold (Utilization (SevenDay u)) ?T"
  let ?s1 = "checkAndNotify u s"
  let ?rest = "weeklyThresholds (emitted ?s1 (notifyAll vs ?s1))"
  have cfg: "config ?s1 = config s"
    by (rule checkAndNotify_config)
  have rec1: "lastWeeklyThreshold (app ?s1) = ?c"
    by (rule checkAndNotify_open(3) [OF assms(1,2)])
  have so: "sorted (map (\<lambda>u. highestCrossedThreshold (Utilization (SevenDay u)) ?T) us)"
    using assms(3) by (rule sorted_map_mono_fun [rotated]) (rule highestCrossedThreshold_mono)
  have tail: "sorted (map (\<lambda>u. highestCrossedThreshold (Utilization (SevenDay u)) ?T) vs)"
    and head: "\<forall>v \<in> set vs. ?c \<le> highestCrossedThreshold (Utilization (SevenDay v)) ?T"
    using so unfolding Cons by simp_all
  have rest: "sorted_wrt (<) ?rest \<and> (\<forall>t \<in> set ?rest. lastWeeklyThreshold (app ?s1) < t)"
  proof (rule weekly_run_rising)
    show "NotificationsEnabled (config ?s1)" "AlertThresholds (config ?s1) \<noteq> []"
      using assms(1,2) by (simp_all add: cfg)
    show "sorted (map (\<lambda>u. highestCrossedThreshold (Utilization (SevenDay u))
        (AlertThresholds (config ?s1))) vs)"
      using tail by (simp only: cfg)
    show "\<forall>v \<in> set vs. lastWeeklyThreshold (app ?s1)
        \<le> highestCrossedThreshold (Utilization (SevenDay v)) (AlertThresholds (config ?s1))"
      using head by (simp only: cfg rec1)
  qed
  have first: "weeklyThresholds (emitted s ?s1) = (if ?c > lastWeeklyThreshold (app s) then [?c] else [])"
    by (rule checkAndNotify_emitted(2) [OF assms(1,2)])
  have all: "weeklyThresholds (emitted s (notifyAll (u # vs) s)) =
      (if ?c > lastWeeklyThreshold (app s) then [?c] else []) @ ?rest"
    by (simp only: emitted_Cons weeklyThresholds_append first)
  show ?thesis
    using rest unfolding Cons all rec1
    by (cases "?c > lastWeeklyThreshold (app s)") auto
qed

lemma weekly_tick_in_run:
  assumes "NotificationsEnabled (config s)" and "AlertThresholds (config s) \<noteq> []"
  shows "weeklyThresholds (emitted (notifyAll us s) (notifyAll (us @ [u]) s)) =
     (if highestCrossedThreshold (Utilization (SevenDay u)) (AlertThresholds (config s))
           > (if us = [] then lastWeeklyThreshold (app s)
              else highestCrossedThreshold (Utilization (SevenDay (last us))) (AlertThresholds (config s)))
      then [highestCrossedThreshold (Utilization (SevenDay u)) (AlertThresholds (config s))]
      else [])"
proof -
  have o: "NotificationsEnabled (config (notifyAll us s))" "AlertThresholds (config (notifyAll us s)) \<noteq> []"
    using assms by (simp_all add: notifyAll_config)
  show ?thesis
    using checkAndNotify_emitted(2) [OF o, of u] notifyAll_records(2) [OF assms, of us]
    by (simp only: notifyAll_snoc notifyAll_config)
qed

text \<open>
  C3, as the code has it. While notifications are enabled and at least one threshold is
  configured, for every run of successful fetches and each of the two metrics: a
  notification is sent on a tick exactly when the highest threshold crossed by the
  metric's utilization is above the recorded one, which after earlier ticks of the run
  is the value crossed on the tick before; then the record is raised to that value, and
  when the value crossed is below the record the record is lowered to it and nothing is
  sent. Hence over a run in which the utilization never falls the thresholds notified
  rise strictly, so each is notified at most once; and after a tick that crossed less,
  a tick that crosses more is notified again, whatever was notified before. When
  notifications are disabled or no threshold is configured, the check sends nothing and
  leaves the records alone. The check never changes the configuration.
\<close>

theorem checkAndNotify_high_water_mark:
  "(NotificationsEnabled (config s) \<and> AlertThresholds (config s) \<noteq> [] \<longrightarrow>
      ui (checkAndNotify usage s) =
        ui s @
        (if highestCrossedThreshold (Utilization (FiveHour usage)) (AlertThresholds (config s))
              > lastSessionThreshold (app s)
         then [SessionNotification (Utilization (FiveHour usage))
                 (highestCrossedThreshold (Utilization (FiveHour usage)) (AlertThresholds (config s)))]
         else []) @
        (if highestCrossedThreshold (Utilization (SevenDay usage)) (AlertThresholds (config s))
              > lastWeeklyThreshold (app s)
         then [WeeklyNotification (Utilization (SevenDay usage))
                 (highestCrossedThreshold (Utilization (SevenDay usage)) (AlertThresholds (config s)))]
         else []) \<and>
      lastSessionThreshold (app (checkAndNotify usage s)) =
        highestCrossedThreshold (Utilization (FiveHour usage)) (AlertThresholds (config s)) \<and>
      lastWeeklyThreshold (app (checkAndNotify usage s)) =
        highestCrossedThreshold (Utilization (SevenDay usage)) (AlertThresholds (config s)) \<and>
      ui (checkAndNotify usage (checkAndNotify usage s)) = ui (checkAndNotify usage s) \<and>
      sessionThresholds (emitted (notifyAll us s) (notifyAll (us @ [usage]) s)) =
        (if highestCrossedThreshold (Utilization (FiveHour usage)) (AlertThresholds (config s))
              > (if us = [] then lastSessionThreshold (app s)
                 else highestCrossedThreshold (Utilization (FiveHour (last us))) (AlertThresholds (config s)))
         then [highestCrossedThreshold (Utilization (FiveHour usage)) (AlertThresholds (config s))]
         else []) \<and>
      weeklyThresholds (emitted (notifyAll us s) (notifyAll (us @ [usage]) s)) =
        (if highestCrossedThreshold (Utilization (SevenDay usage)) (AlertThresholds (config s))
              > (if us = [] then lastWeeklyThreshold (app s)
                 else highestCrossedThreshold (Utilization (SevenDay (last us))) (AlertThresholds (config s)))
         then [highestCrossedThreshold (Utilization (SevenDay usage)) (AlertThresholds (config s))]
         else []) \<and>
      (sorted (map (\<lambda>u. Utilization (FiveHour u)) us) \<longrightarrow>
         sorted_wrt (<) (sessionThresholds (emitted s (notifyAll us s))) \<and>
         distinct (sessionThresholds (emitted s (notifyAll us s)))) \<and>
      (sorted (map (\<lambda>u. Utilization (SevenDay u)) us) \<longrightarrow>
         sorted_wrt (<) (weeklyThresholds (emitted s (notifyAll us s))) \<and>
         distinct (weeklyThresholds (emitted s (notifyAll us s)))) \<and>
      (highestCrossedThreshold (Utilization (FiveHour lo)) (AlertThresholds (config s))
          < highestCrossedThreshold (Utilization (FiveHour hi)) (AlertThresholds (config s)) \<longrightarrow>
         sessionThresholds (emitted (notifyAll [lo] s) (notifyAll [lo, hi] s)) =
           [highestCrossedThreshold (Utilization (FiveHour hi)) (AlertThresholds (config s))]) \<and>
      (highestCrossedThreshold (Utilization (SevenDay lo)) (AlertThresholds (config s))
          < highestCrossedThreshold (Utilization (SevenDay hi)) (AlertThresholds (config s)) \<longrightarrow>
         weeklyThresholds (emitted (notifyAll [lo] s) (notifyAll [lo, hi] s)) =
           [highestCrossedThreshold (Utilization (SevenDay hi)) (AlertThresholds (config s))])) \<and>
   (\<not> (NotificationsEnabled (config s) \<and> AlertThresholds (config s) \<noteq> []) \<longrightarrow>
      checkAndNotify usage s = s) \<and>
   config (checkAndNotify usage s) = config s \<and>
   config (notifyAll us s) = config s"
proof (intro conjI impI)
  show "checkAndNotify usage s = s"
    if "\<not> (NotificationsEnabled (config s) \<and> AlertThresholds (config s) \<noteq> [])"
    using that by (auto simp add: checkAndNotify_def)
  show "config (checkAndNotify usage s) = config s"
    by (rule checkAndNotify_config)
  show "config (notifyAll us s) = config s"
    by (rule notifyAll_config)
next
  assume "NotificationsEnabled (config s) \<and> AlertThresholds (config s) \<noteq> []"
  then have g: "NotificationsEnabled (config s)" "AlertThresholds (config s) \<noteq> []"
    by simp_all
  note one = checkAndNotify_open [OF g]
  show "ui (checkAndNotify usage s) =
        ui s @
        (if highestCrossedThreshold (Utilization (FiveHour usage)) (AlertThresholds (config s))
              > lastSessionThreshold (app s)
         then [SessionNotification (Utilization (FiveHour usage))
                 (highestCrossedThreshold (Utilization (FiveHour usage)) (AlertThresholds (config s)))]
         else []) @
        (if highestCrossedThreshold (Utilization (SevenDay usage)) (AlertThresholds (config s))
              > lastWeeklyThreshold (app s)
         then [WeeklyNotification (Utilization (SevenDay usage))
                 (highestCrossedThreshold (Utilization (SevenDay usage)) (AlertThresholds (config s)))]
         else [])"
    by (rule one(1))
  show "lastSessionThreshold (app (checkAndNotify usage s)) =
        highestCrossedThreshold (Utilization (FiveHour usage)) (AlertThresholds (config s))"
    by (rule one(2))
  show "lastWeeklyThreshold (app (checkAndNotify usage s)) =
        highestCrossedThreshold (Utilization (SevenDay usage)) (AlertThresholds (config s))"
    by (rule one(3))
  show "ui (checkAndNotify usage (checkAndNotify usage s)) = ui (checkAndNotify usage s)"
    using g by (simp add: checkAndNotify_def checkSession_effect checkWeekly_effect)
  show "sessionThresholds (emitted (notifyAll us s) (notifyAll (us @ [usage]) s)) =
        (if highestCrossedThreshold (Utilization (FiveHour usage)) (AlertThresholds (config s))
              > (if us = [] then lastSessionThreshold (app s)
                 else highestCrossedThreshold (Utilization (FiveHour (last us))) (AlertThresholds (config s)))
         then [highestCrossedThreshold (Utilization (FiveHour usage)) (AlertThresholds (config s))]
         else [])"
    by (rule session_tick_in_run [OF g])
  show "weeklyThresholds (emitted (notifyAll us s) (notifyAll (us @ [usage]) s)) =
        (if highestCrossedThreshold (Utilization (SevenDay usage)) (AlertThresholds (config s))
              > (if us = [] then lastWeeklyThreshold (app s)
                 else highestCrossedThreshold (Utilization (SevenDay (last us))) (AlertThresholds (config s)))
         then [highestCrossedThreshold (Utilization (SevenDay usage)) (AlertThresholds (config s))]
         else [])"
    by (rule weekly_tick_in_run [OF g])
  show "sorted_wrt (<) (sessionThresholds (emitted s (notifyAll us s)))"
    if "sorted (map (\<lambda>u. Utilization (FiveHour u)) us)"
    by (rule session_run_distinct [OF g that])
  show "distinct (sessionThresholds (emitted s (notifyAll us s)))"
    if "sorted (map (\<lambda>u. Utilization (FiveHour u)) us)"
    using session_run_distinct [OF g that] by (simp add: strict_sorted_iff)
  show "sorted_wrt (<) (weeklyThresholds (emitted s (notifyAll us s)))"
    if "sorted (map (\<lambda>u. Utilization (SevenDay u)) us)"
    by (rule weekly_run_distinct [OF g that])
  show "distinct (weeklyThresholds (emitted s (notifyAll us s)))"
    if "sorted (map (\<lambda>u. Utilization (SevenDay u)) us)"
    using weekly_run_distinct [OF g that] by (simp add: strict_sorted_iff)
  show "sessionThresholds (emitted (notifyAll [lo] s) (notifyAll [lo, hi] s)) =
           [highestCrossedThreshold (Utilization (FiveHour hi)) (AlertThresholds (config s))]"
    if "highestCrossedThreshold (Utilization (FiveHour lo)) (AlertThresholds (config s))
          < highestCrossedThreshold (Utilization (FiveHour hi)) (AlertThresholds (config s))"
    using session_tick_in_run [OF g, of "[lo]" hi] that by simp
  show "weeklyThresholds (emitted (notifyAll [lo] s) (notifyAll [lo, hi] s)) =
           [highestCrossedThreshold (Utilization (SevenDay hi)) (AlertThresholds (config s))]"
    if "highestCrossedThreshold (Utilization (SevenDay lo)) (AlertThresholds (config s))
          < highestCrossedThreshold (Utilization (SevenDay hi)) (AlertThresholds (config s))"
    using weekly_tick_in_run [OF g, of "[lo]" hi] that by simp
qed

theorem checkAndNotify_high_water_mark_witness:
  "NotificationsEnabled (config (demoSystem (always (DoError ''offline'')))) \<and>
   AlertThresholds (config (demoSystem (always (DoError ''offline'')))) \<noteq> [] \<and>
   ui (checkAndNotify (usageOf 60 0) (demoSystem (always (DoError ''offline'')))) =
     [SessionNotification 60 50] \<and>
   lastSessionThreshold (app (checkAndNotify (usageOf 60 0) (demoSystem (always (DoError ''offline''))))) = 50 \<and>
   ui (notifyAll [usageOf 60 0, usageOf 82 0, usageOf 10 0, usageOf 77 0]
         (demoSystem (always (DoError ''offline'')))) =
     [SessionNotification 60 50, SessionNotification 82 75, SessionNotification 77 75] \<and>
   ui (notifyAll [usageOf 60 0, usageOf 60 0, usageOf 61 0]
         (demoSystem (always (DoError ''offline'')))) =
     [SessionNotification 60 50] \<and>
   sessionThresholds (emitted
       (notifyAll [usageOf 60 0, usageOf 82 0, usageOf 10 0] (demoSystem (always (DoError ''offline''))))
       (notifyAll [usageOf 60 0, usageOf 82 0, usageOf 10 0, usageOf 77 0]
          (demoSystem (always (DoError ''offline''))))) = [75] \<and>
   distinct (sessionThresholds (emitted (demoSystem (always (DoError ''offline'')))
       (notifyAll [usageOf 60 0, usageOf 61 0, usageOf 82 0, usageOf 95 0]
          (demoSystem (always (DoError ''offline''))))))"
proof -
  let ?s = "demoSystem (always (DoError ''offline''))"
  have g: "NotificationsEnabled (config ?s)" "AlertThresholds (config ?s) \<noteq> []"
    "AlertThresholds (config ?s) = [50, 75, 90]" "ui ?s = []"
    "lastSessionThreshold (app ?s) = 0" "lastWeeklyThreshold (app ?s) = 0"
    by (simp_all add: demoSystem_def)
  have h: "highestCrossedThreshold 60 [50, 75, 90] = 50" "highestCrossedThreshold 0 [50, 75, 90] = 0"
    "highestCrossedThreshold 10 [50, 75, 90] = 0" "highestCrossedThreshold 77 [50, 75, 90] = 75"
    by (simp_all add: highestCrossedThreshold_def)
  from checkAndNotify_high_water_mark [of ?s "usageOf 60 0"] g h
  have a: "ui (checkAndNotify (usageOf 60 0) ?s) = [SessionNotification 60 50]"
    "lastSessionThreshold (app (checkAndNotify (usageOf 60 0) ?s)) = 50"
    by (simp_all add: usageOf_def)
  have b: "ui (notifyAll [usageOf 60 0, usageOf 82 0, usageOf 10 0, usageOf 77 0] ?s) =
     [SessionNotification 60 50, SessionNotification 82 75, SessionNotification 77 75]"
    "ui (notifyAll [usageOf 60 0, usageOf 60 0, usageOf 61 0] ?s) = [SessionNotification 60 50]"
    by (simp_all add: usageOf_def demoSystem_def checkAndNotify_def checkSession_def
        checkWeekly_def highestCrossedThreshold_def SendNotification_def)
  have u: "Utilization (FiveHour (usageOf x y)) = x" for x y
    by (simp add: usageOf_def)
  note t = checkAndNotify_high_water_mark
    [of ?s "usageOf 77 0" "[usageOf 60 0, usageOf 82 0, usageOf 10 0]"]
  from t g(1,2) have "sessionThresholds (emitted
        (notifyAll [usageOf 60 0, usageOf 82 0, usageOf 10 0] ?s)
        (notifyAll ([usageOf 60 0, usageOf 82 0, usageOf 10 0] @ [usageOf 77 0]) ?s)) =
      (if highestCrossedThreshold (Utilization (FiveHour (usageOf 77 0))) (AlertThresholds (config ?s))
            > (if [usageOf 60 0, usageOf 82 0, usageOf 10 0] = [] then lastSessionThreshold (app ?s)
               else highestCrossedThreshold (Utilization (FiveHour (last [usageOf 60 0, usageOf 82 0, usageOf 10 0])))
                      (AlertThresholds (config ?s)))
       then [highestCrossedThreshold (Utilization (FiveHour (usageOf 77 0))) (AlertThresholds (config ?s))]
       else [])"
    by blast
  then have c: "sessionThresholds (emitted
        (notifyAll [usageOf 60 0, usageOf 82 0, usageOf 10 0] ?s)
        (notifyAll [usageOf 60 0, usageOf 82 0, usageOf 10 0, usageOf 77 0] ?s)) = [75]"
    by (simp add: u g(3) h)
  note m = checkAndNotify_high_water_mark
    [of ?s "usageOf 60 0" "[usageOf 60 0, usageOf 61 0, usageOf 82 0, usageOf 95 0]"]
  have so: "sorted (map (\<lambda>u. Utilization (FiveHour u))
      [usageOf 60 0, usageOf 61 0, usageOf 82 0, usageOf 95 0])"
    by (simp add: u)
  from m g(1,2) so have d: "distinct (sessionThresholds (emitted ?s
      (notifyAll [usageOf 60 0, usageOf 61 0, usageOf 82 0, usageOf 95 0] ?s)))"
    by blast
  from g a b c d show ?thesis
    by simp
qed

text \<open>
  The claim C3 as it was stated, for every run of successful fetches, fails where
  notifications are switched off: the threshold crossed is above the record and no
  notification is sent.
\<close>

theorem checkAndNotify_counterexample:
  "highestCrossedThreshold (Utilization (FiveHour (usageOf 60 0))) (AlertThresholds (config mutedSystem))
     > lastSessionThreshold (app mutedSystem) \<and>
   ui (checkAndNotify (usageOf 60 0) mutedSystem) = [] \<and>
   lastSessionThreshold (app (checkAndNotify (usageOf 60 0) mutedSystem)) = 0"
  by (simp add: mutedSystem_def demoSystem_def usageOf_def checkAndNotify_def
      highestCrossedThreshold_def)

section \<open>The polling tick\<close>

lemma wrap64_id: "- (2 ^ 63) \<le> x \<Longrightarrow> x < 2 ^ 63 \<Longrightarrow> wrap64 x = x"
  by (simp add: wrap64_def)

lemma fetchUsageOnce_frame:
  "app (snd (fetchUsageOnce L key orgID s)) = app s"
  "config (snd (fetchUsageOnce L key orgID s)) = config s"
  "net (snd (fetchUsageOnce L key orgID s)) = net s"
  "sessionKey (client (snd (fetchUsageOnce L key orgID s))) = sessionKey (client s)"
  "organizationID (client (snd (fetchUsageOnce L key orgID s))) = organizationID (client s)"
  by (simp_all add: fetchUsageOnce_def http_Do_def Let_def
      split: option.splits http_result.splits sum.splits)

lemma FetchUsage_frame:
  "app (snd (FetchUsage L s)) = app s"
  "config (snd (FetchUsage L s)) = config s"
  "net (snd (FetchUsage L s)) = net s"
  "sessionKey (client (snd (FetchUsage L s))) = sessionKey (client s)"
  "organizationID (client (snd (FetchUsage L s))) = organizationID (client s)"
proof -
  let ?k = "sessionKey (client s)" and ?o = "organizationID (client s)"
  obtain r s1 where a: "fetchUsageOnce L ?k ?o s = (r, s1)"
    by (cases "fetchUsageOnce L ?k ?o s")
  have f1: "app s1 = app s" "config s1 = config s" "net s1 = net s"
    "sessionKey (client s1) = ?k" "organizationID (client s1) = ?o"
    using fetchUsageOnce_frame [of L ?k ?o s] a by simp_all
  let ?s2 = "time_Sleep (2 * Second) s1"
  have f2: "app (snd (fetchUsageOnce L ?k ?o ?s2)) = app s"
    "config (snd (fetchUsageOnce L ?k ?o ?s2)) = config s"
    "net (snd (fetchUsageOnce L ?k ?o ?s2)) = net s"
    "sessionKey (client (snd (fetchUsageOnce L ?k ?o ?s2))) = ?k"
    "organizationID (client (snd (fetchUsageOnce L ?k ?o ?s2))) = ?o"
    using fetchUsageOnce_frame [of L ?k ?o ?s2] f1 by (simp_all add: time_Sleep_fields)
  have "FetchUsage L s = (Inl ErrNoSessionKey, s) \<or> FetchUsage L s = (Inl ErrNoOrgID, s) \<or>
        FetchUsage L s = (r, s1) \<or> FetchUsage L s = fetchUsageOnce L ?k ?o ?s2"
    using a by (simp add: FetchUsage_def FetchUsage_loop_unfold split: sum.splits)
  then show "app (snd (FetchUsage L s)) = app s"
    "config (snd (FetchUsage L s)) = config s"
    "net (snd (FetchUsage L s)) = net s"
    "sessionKey (client (snd (FetchUsage L s))) = sessionKey (client s)"
    "organizationID (client (snd (FetchUsage L s))) = organizationID (client s)"
    using f1 f2 by auto
qed

lemma consumeBackoff_frame:
  "consecutiveErrors (app (consumeBackoff s)) = consecutiveErrors (app s)"
  "client (consumeBackoff s) = client s"
  "net (consumeBackoff s) = net s"
  "config (consumeBackoff s) = config s"
  by (simp_all add: consumeBackoff_def time_Sleep_def Let_def)

text \<open>The state after a tick on which the client reports the rate limit.\<close>

lemma fetchUsage_rate_limited:
  assumes "IsAuthenticated s"
    and "0 \<le> consecutiveErrors (app s)" and "consecutiveErrors (app s) < 2 ^ 63 - 1"
    and "FetchUsage L (consumeBackoff s) = (Inl ErrRateLimited, s1)"
  shows "fetchUsage L s =
           Some (fyne_Do (SetStatusRateLimited (30 * 2 ^ nat (min (consecutiveErrors (app s)) 3)))
             (s1\<lparr>app := (app s1)\<lparr>consecutiveErrors := consecutiveErrors (app s) + 1,
                rateLimitBackoff := 30 * 2 ^ nat (min (consecutiveErrors (app s)) 3) * Second\<rparr>\<rparr>))"
proof -
  let ?c = "consecutiveErrors (app s)"
  have c1: "consecutiveErrors (app s1) = ?c"
    using FetchUsage_frame(1) [of L "consumeBackoff s"] assms(4)
    by (simp add: consumeBackoff_frame)
  have w1: "wrap64 (?c + 1) = ?c + 1"
    using assms(2,3) by (intro wrap64_id) simp_all
  have w2: "wrap64 ?c = ?c"
    using assms(2,3) by (intro wrap64_id) simp_all
  have m: "min ?c 3 = 0 \<or> min ?c 3 = 1 \<or> min ?c 3 = 2 \<or> min ?c 3 = 3"
    using assms(2) by (auto simp: min_def)
  have p: "(2::int) ^ nat (min ?c 3) = 1 \<or> (2::int) ^ nat (min ?c 3) = 2 \<or>
           (2::int) ^ nat (min ?c 3) = 4 \<or> (2::int) ^ nat (min ?c 3) = 8"
    using m by (auto simp: numeral_2_eq_2 numeral_3_eq_3)
  have w3: "wrap64 (2 ^ nat (min ?c 3)) = 2 ^ nat (min ?c 3)"
    using p by (auto simp: wrap64_def)
  have w4: "wrap64 (30 * 2 ^ nat (min ?c 3)) = 30 * 2 ^ nat (min ?c 3)"
    using p by (auto simp: wrap64_def)
  have w5: "wrap64 (30 * 2 ^ nat (min ?c 3) * Second) = 30 * 2 ^ nat (min ?c 3) * Second"
    using p by (auto simp: wrap64_def Second_def)
  have "fetchUsage L s = fetchUsage_failed L ErrRateLimited s1"
    using assms(1,4) by (simp add: fetchUsage_def)
  also have "\<dots> = Some (fyne_Do (SetStatusRateLimited (30 * 2 ^ nat (min ?c 3)))
       (s1\<lparr>app := (app s1)\<lparr>consecutiveErrors := ?c + 1,
              rateLimitBackoff := 30 * 2 ^ nat (min ?c 3) * Second\<rparr>\<rparr>))"
    using assms(2) by (simp add: fetchUsage_failed_def Let_def c1 w1 w2 w3 w4 w5)
  finally show ?thesis .
qed

lemma backoff_values:
  assumes "0 \<le> (c::int)"
  shows "(30::int) * 2 ^ nat (min c 3) =
           (if c = 0 then 30 else if c = 1 then 60 else if c = 2 then 120 else 240)"
proof -
  consider "c = 0" | "c = 1" | "c = 2" | "3 \<le> c"
    using assms by linarith
  then show ?thesis
  proof cases
    case 4
    then have "min c 3 = 3" by simp
    with 4 show ?thesis by simp
  qed simp_all
qed

text \<open>A service that answers every request with 429 makes \<open>FetchUsage\<close> report the rate limit.\<close>

lemma FetchUsage_rate_limited_service:
  assumes "HasCredentials s"
    and "url_error L (baseURL @ ''/api/organizations/'' @ organizationID (client s) @ ''/usage'') = None"
    and "\<forall>k q. \<exists>b. net s k q = Response 429 b"
  shows "fst (FetchUsage L s) = Inl ErrRateLimited"
proof -
  let ?k = "sessionKey (client s)" and ?o = "organizationID (client s)"
  let ?req = "setHeaders (baseURL @ ''/api/organizations/'' @ ?o @ ''/usage'') ?k"
  let ?s1 = "s\<lparr>requests := requests s @ [?req]\<rparr>"
  let ?s2 = "time_Sleep (2 * Second) ?s1"
  obtain b where b: "net s (length (requests s)) ?req = Response 429 b"
    using assms(3) by blast
  obtain b2 where b2: "net ?s2 (length (requests ?s2)) ?req = Response 429 b2"
    using assms(3) by (simp add: time_Sleep_def) blast
  have one: "fetchUsageOnce L ?k ?o s = (Inl ErrRateLimited, ?s1)"
    using fetchUsageOnce_status [OF assms(2) b] by simp
  have two: "fst (fetchUsageOnce L ?k ?o ?s2) = Inl ErrRateLimited"
    using fetchUsageOnce_status [OF assms(2) b2] by simp
  show ?thesis
    using assms(1) one two
    by (simp add: FetchUsage_def HasCredentials_def FetchUsage_loop_unfold)
qed

text \<open>
  A run of ticks against such a service, from a counter \<open>c\<close>: after \<open>n\<close> ticks the
  counter is \<open>c + n\<close>, and the pending backoff after the last of them follows the
  formula. From \<open>c = 0\<close> the backoffs are 30, 60, 120, 240, 240, ... seconds.
\<close>

lemma ticks_rate_limited_service:
  assumes "HasCredentials s"
    and "url_error L (baseURL @ ''/api/organizations/'' @ organizationID (client s) @ ''/usage'') = None"
    and "\<forall>k q. \<exists>b. net s k q = Response 429 b"
    and "0 \<le> consecutiveErrors (app s)"
    and "consecutiveErrors (app s) + int n < 2 ^ 63"
  shows "\<exists>s'. ticks L n s = Some s' \<and>
           consecutiveErrors (app s') = consecutiveErrors (app s) + int n \<and>
           (0 < n \<longrightarrow> rateLimitBackoff (app s') =
              30 * 2 ^ nat (min (consecutiveErrors (app s) + int n - 1) 3) * Second)"
  using assms
proof (induction n arbitrary: s)
  case 0
  then show ?case by simp
next
  case (Suc n)
  let ?c = "consecutiveErrors (app s)"
  let ?s0 = "consumeBackoff s"
  let ?s1 = "snd (FetchUsage L ?s0)"
  let ?s2 = "fyne_Do (SetStatusRateLimited (30 * 2 ^ nat (min ?c 3)))
             (?s1\<lparr>app := (app ?s1)\<lparr>consecutiveErrors := ?c + 1,
                rateLimitBackoff := 30 * 2 ^ nat (min ?c 3) * Second\<rparr>\<rparr>)"
  have cred0: "HasCredentials ?s0"
    using Suc.prems(1) by (simp add: HasCredentials_def consumeBackoff_frame)
  have url0: "url_error L (baseURL @ ''/api/organizations/'' @ organizationID (client ?s0) @ ''/usage'') = None"
    using Suc.prems(2) by (simp add: consumeBackoff_frame)
  have net0: "\<forall>k q. \<exists>b. net ?s0 k q = Response 429 b"
    using Suc.prems(3) by (simp add: consumeBackoff_frame)
  have "fst (FetchUsage L ?s0) = Inl ErrRateLimited"
    by (rule FetchUsage_rate_limited_service [OF cred0 url0 net0])
  then have fu: "FetchUsage L ?s0 = (Inl ErrRateLimited, ?s1)"
    by (simp add: prod_eq_iff)
  have step: "fetchUsage L s = Some ?s2"
    using Suc.prems(1,4,5) fu
    by (intro fetchUsage_rate_limited) (simp_all add: IsAuthenticated_def)
  have keep: "sessionKey (client ?s2) = sessionKey (client s)"
    "organizationID (client ?s2) = organizationID (client s)"
    "net ?s2 = net s"
    using FetchUsage_frame(3-5) [of L ?s0]
    by (simp_all add: fyne_Do_def consumeBackoff_frame)
  have c2: "consecutiveErrors (app ?s2) = ?c + 1"
    by (simp add: fyne_Do_def)
  have "\<exists>s'. ticks L n ?s2 = Some s' \<and>
           consecutiveErrors (app s') = consecutiveErrors (app ?s2) + int n \<and>
           (0 < n \<longrightarrow> rateLimitBackoff (app s') =
              30 * 2 ^ nat (min (consecutiveErrors (app ?s2) + int n - 1) 3) * Second)"
  proof (rule Suc.IH)
    show "HasCredentials ?s2"
      using Suc.prems(1) keep by (simp add: HasCredentials_def)
    show "url_error L (baseURL @ ''/api/organizations/'' @ organizationID (client ?s2) @ ''/usage'') = None"
      using Suc.prems(2) keep by simp
    show "\<forall>k q. \<exists>b. net ?s2 k q = Response 429 b"
      using Suc.prems(3) keep by simp
    show "0 \<le> consecutiveErrors (app ?s2)"
      using Suc.prems(4) c2 by simp
    show "consecutiveErrors (app ?s2) + int n < 2 ^ 63"
      using Suc.prems(5) c2 by simp
  qed
  then obtain s' where s': "ticks L n ?s2 = Some s'"
    "consecutiveErrors (app s') = ?c + 1 + int n"
    "0 < n \<longrightarrow> rateLimitBackoff (app s') = 30 * 2 ^ nat (min (?c + 1 + int n - 1) 3) * Second"
    using c2 by auto
  have last: "n = 0 \<longrightarrow> rateLimitBackoff (app s') = 30 * 2 ^ nat (min ?c 3) * Second"
    using s'(1) by (auto simp: fyne_Do_def)
  have "ticks L (Suc n) s = Some s'"
    using step s'(1) by simp
  moreover have "consecutiveErrors (app s') = ?c + int (Suc n)"
    using s'(2) by simp
  moreover have "rateLimitBackoff (app s') = 30 * 2 ^ nat (min (?c + int (Suc n) - 1) 3) * Second"
    using s'(3) last by (cases "n = 0") (simp_all add: algebra_simps)
  ultimately show ?case
    by blast
qed

text \<open>
  One tick on which the client returns \<open>ErrRateLimited\<close>: the tick ends without a
  panic, the error counter has gone up by one, and the pending backoff is
  \<open>30 * 2 ^ min (consecutiveErrors - 1) 3\<close> seconds for the new value of the counter:
  30, 60, 120 seconds when the counter was 0, 1, 2 before, and 240 seconds from then on.
  (The counter is a non-negative 64-bit integer below its maximum.)
\<close>

theorem rate_limit_backoff:
  assumes "IsAuthenticated s"
    and "0 \<le> consecutiveErrors (app s)" and "consecutiveErrors (app s) < 2 ^ 63 - 1"
    and "FetchUsage L (consumeBackoff s) = (Inl ErrRateLimited, s1)"
  shows "\<exists>s'. fetchUsage L s = Some s' \<and>
           consecutiveErrors (app s') = consecutiveErrors (app s) + 1 \<and>
           rateLimitBackoff (app s') = 30 * 2 ^ nat (min (consecutiveErrors (app s') - 1) 3) * Second \<and>
           rateLimitBackoff (app s') =
             (if consecutiveErrors (app s) = 0 then 30
              else if consecutiveErrors (app s) = 1 then 60
              else if consecutiveErrors (app s) = 2 then 120 else 240) * Second"
  using fetchUsage_rate_limited [OF assms] backoff_values [OF assms(2)]
  by (simp add: fyne_Do_def)

theorem rate_limit_backoff_witness:
  "\<exists>s'. fetchUsage demoLib (demoSystem (always (Response 429 ''''))) = Some s' \<and>
         consecutiveErrors (app s') = 1 \<and> rateLimitBackoff (app s') = 30 * Second"
proof -
  let ?s = "demoSystem (always (Response 429 ''''))"
  have a: "IsAuthenticated ?s" "0 \<le> consecutiveErrors (app ?s)"
    "consecutiveErrors (app ?s) < 2 ^ 63 - 1" "consecutiveErrors (app ?s) = 0"
    by (simp_all add: IsAuthenticated_def HasCredentials_def demoSystem_def)
  have "fst (FetchUsage demoLib (consumeBackoff ?s)) = Inl ErrRateLimited"
    by code_simp
  then have f: "FetchUsage demoLib (consumeBackoff ?s) =
      (Inl ErrRateLimited, snd (FetchUsage demoLib (consumeBackoff ?s)))"
    by (simp add: prod_eq_iff)
  from rate_limit_backoff [OF a(1-3) f] a(4) show ?thesis
    by auto
qed

text \<open>
  The client reports the rate limit only when it has both credentials, so such a tick is
  never skipped.
\<close>

lemma FetchUsage_rate_limited_credentials:
  assumes "fst (FetchUsage L (consumeBackoff s)) = Inl ErrRateLimited"
  shows "IsAuthenticated s"
proof -
  have "sessionKey (client s) \<noteq> '''' \<and> organizationID (client s) \<noteq> ''''"
    using assms by (auto simp: FetchUsage_def consumeBackoff_frame split: if_splits)
  then show ?thesis
    by (simp add: IsAuthenticated_def HasCredentials_def)
qed

lemma rateLimitedRun_ticks:
  assumes "rateLimitedRun L n s"
    and "0 \<le> consecutiveErrors (app s)"
    and "consecutiveErrors (app s) + int n < 2 ^ 63"
  shows "\<forall>k<n. \<exists>s'. ticks L (Suc k) s = Some s' \<and>
           consecutiveErrors (app s') = consecutiveErrors (app s) + int k + 1 \<and>
           rateLimitBackoff (app s') =
             30 * 2 ^ nat (min (consecutiveErrors (app s) + int k) 3) * Second"
  using assms
proof (induction n arbitrary: s)
  case 0
  show ?case by simp
next
  case (Suc n)
  let ?c = "consecutiveErrors (app s)"
  let ?s1 = "snd (FetchUsage L (consumeBackoff s))"
  let ?s2 = "fyne_Do (SetStatusRateLimited (30 * 2 ^ nat (min ?c 3)))
             (?s1\<lparr>app := (app ?s1)\<lparr>consecutiveErrors := ?c + 1,
                rateLimitBackoff := 30 * 2 ^ nat (min ?c 3) * Second\<rparr>\<rparr>)"
  from Suc.prems(1) have rl: "fst (FetchUsage L (consumeBackoff s)) = Inl ErrRateLimited"
    by simp
  then have fu: "FetchUsage L (consumeBackoff s) = (Inl ErrRateLimited, ?s1)"
    by (simp add: prod_eq_iff)
  have auth: "IsAuthenticated s"
    by (rule FetchUsage_rate_limited_credentials [OF rl])
  have step: "fetchUsage L s = Some ?s2"
    using Suc.prems(2,3) by (intro fetchUsage_rate_limited [OF auth _ _ fu]) simp_all
  with Suc.prems(1) have run: "rateLimitedRun L n ?s2"
    by simp
  have c2: "consecutiveErrors (app ?s2) = ?c + 1"
    and b2: "rateLimitBackoff (app ?s2) = 30 * 2 ^ nat (min ?c 3) * Second"
    by (simp_all add: fyne_Do_def)
  have ih: "\<forall>k<n. \<exists>s'. ticks L (Suc k) ?s2 = Some s' \<and>
           consecutiveErrors (app s') = consecutiveErrors (app ?s2) + int k + 1 \<and>
           rateLimitBackoff (app s') =
             30 * 2 ^ nat (min (consecutiveErrors (app ?s2) + int k) 3) * Second"
  proof (rule Suc.IH [OF run])
    show "0 \<le> consecutiveErrors (app ?s2)"
      using Suc.prems(2) by (simp add: c2)
    show "consecutiveErrors (app ?s2) + int n < 2 ^ 63"
      using Suc.prems(3) by (simp add: c2)
  qed
  show ?case
  proof (intro allI impI)
    fix k
    assume k: "k < Suc n"
    show "\<exists>s'. ticks L (Suc k) s = Some s' \<and>
           consecutiveErrors (app s') = ?c + int k + 1 \<and>
           rateLimitBackoff (app s') = 30 * 2 ^ nat (min (?c + int k) 3) * Second"
    proof (cases k)
      case 0
      have "ticks L (Suc 0) s = Some ?s2"
        by (simp add: step)
      with c2 b2 0 show ?thesis
        by simp
    next
      case (Suc j)
      with k have "j < n" by simp
      with ih obtain s' where s': "ticks L (Suc j) ?s2 = Some s'"
        "consecutiveErrors (app s') = consecutiveErrors (app ?s2) + int j + 1"
        "rateLimitBackoff (app s') =
           30 * 2 ^ nat (min (consecutiveErrors (app ?s2) + int j) 3) * Second"
        by blast
      have t: "ticks L (Suc (Suc j)) s = Some s'"
        using step s'(1) by (simp del: fyne_Do_def)
      have e: "consecutiveErrors (app ?s2) + int j = ?c + int (Suc j)"
        by (simp add: c2)
      show ?thesis
        using t s'(2,3) unfolding e Suc by blast
    qed
  qed
qed

text \<open>
  C2, as the code has it. In a run of \<open>n\<close> ticks on each of which the client returns
  \<open>ErrRateLimited\<close>, begun with the error counter at some value \<open>c\<close> (non-negative, and
  with room for \<open>n\<close> more): none of the ticks panics, the counter after the tick number
  \<open>k + 1\<close> is \<open>c + k + 1\<close>, and the backoff stored by that tick is
  \<open>30 * 2 ^ min (consecutiveErrors - 1) 3\<close> seconds for that value of the counter. The
  counter counts the failed ticks of every kind since the last success. When the run
  begins with the counter at 0, the backoffs stored are 30, 60, 120 and 240 seconds, and
  240 seconds for the fourth tick and every later one.
\<close>

theorem rate_limited_run_backoff:
  assumes "rateLimitedRun L n s"
    and "0 \<le> consecutiveErrors (app s)"
    and "consecutiveErrors (app s) + int n < 2 ^ 63"
  shows "\<forall>k<n. \<exists>s'. ticks L (Suc k) s = Some s' \<and>
           consecutiveErrors (app s') = consecutiveErrors (app s) + int k + 1 \<and>
           rateLimitBackoff (app s') =
             30 * 2 ^ nat (min (consecutiveErrors (app s') - 1) 3) * Second \<and>
           (consecutiveErrors (app s) = 0 \<longrightarrow>
              rateLimitBackoff (app s') =
                (if k = 0 then 30 else if k = 1 then 60 else if k = 2 then 120 else 240) * Second)"
proof (intro allI impI)
  fix k
  assume "k < n"
  with rateLimitedRun_ticks [OF assms] obtain s' where s': "ticks L (Suc k) s = Some s'"
    "consecutiveErrors (app s') = consecutiveErrors (app s) + int k + 1"
    "rateLimitBackoff (app s') = 30 * 2 ^ nat (min (consecutiveErrors (app s) + int k) 3) * Second"
    by blast
  have v: "(30::int) * 2 ^ nat (min (int k) 3) =
      (if k = 0 then 30 else if k = 1 then 60 else if k = 2 then 120 else 240)"
    using backoff_values [of "int k"] by simp
  have "rateLimitBackoff (app s') =
      30 * 2 ^ nat (min (consecutiveErrors (app s') - 1) 3) * Second"
    using s'(2,3) by simp
  moreover have "rateLimitBackoff (app s') =
      (if k = 0 then 30 else if k = 1 then 60 else if k = 2 then 120 else 240) * Second"
    if "consecutiveErrors (app s) = 0"
    using s'(3) v that by simp
  ultimately show "\<exists>s'. ticks L (Suc k) s = Some s' \<and>
           consecutiveErrors (app s') = consecutiveErrors (app s) + int k + 1 \<and>
           rateLimitBackoff (app s') =
             30 * 2 ^ nat (min (consecutiveErrors (app s') - 1) 3) * Second \<and>
           (consecutiveErrors (app s) = 0 \<longrightarrow>
              rateLimitBackoff (app s') =
                (if k = 0 then 30 else if k = 1 then 60 else if k = 2 then 120 else 240) * Second)"
    using s'(1,2) by blast
qed

theorem rate_limited_run_backoff_witness:
  "backoffAfter demoLib (Suc 0) (demoSystem (always (Response 429 ''''))) = Some (30 * Second) \<and>
   backoffAfter demoLib (Suc 1) (demoSystem (always (Response 429 ''''))) = Some (60 * Second) \<and>
   backoffAfter demoLib (Suc 2) (demoSystem (always (Response 429 ''''))) = Some (120 * Second) \<and>
   backoffAfter demoLib (Suc 3) (demoSystem (always (Response 429 ''''))) = Some (240 * Second) \<and>
   backoffAfter demoLib (Suc 4) (demoSystem (always (Response 429 ''''))) = Some (240 * Second)"
proof -
  let ?s = "demoSystem (always (Response 429 ''''))"
  have run: "rateLimitedRun demoLib 5 ?s"
    by code_simp
  have c: "consecutiveErrors (app ?s) = 0"
    by (simp add: demoSystem_def)
  have "0 \<le> consecutiveErrors (app ?s)" and "consecutiveErrors (app ?s) + int 5 < 2 ^ 63"
    by (simp_all add: c)
  from rate_limited_run_backoff [OF run this] c
  have r: "\<exists>s'. ticks demoLib (Suc k) ?s = Some s' \<and>
      rateLimitBackoff (app s') =
        (if k = 0 then 30 else if k = 1 then 60 else if k = 2 then 120 else 240) * Second"
    if "k < 5" for k
    using that by blast
  have "backoffAfter demoLib (Suc k) ?s =
      Some ((if k = 0 then 30 else if k = 1 then 60 else if k = 2 then 120 else 240) * Second)"
    if "k < 5" for k
    using r [OF that] by (auto simp add: backoffAfter_def simp del: ticks.simps)
  from this [of 0] this [of 1] this [of 2] this [of 3] this [of 4] show ?thesis
    by simp
qed

text \<open>
  The claim C2 as it was stated, for every run of consecutive rate-limited ticks, fails
  when a failure of another kind comes first: after one tick that ends in
  \<open>ErrAPIUnavailable\<close> the first rate-limited tick stores 60 seconds, not 30.
\<close>

theorem rate_limit_sequence_counterexample:
  "clientAnswerAt demoLib 0 (demoSystem unavailableThenLimited) = Some (Inl ErrAPIUnavailable) \<and>
   clientAnswerAt demoLib 1 (demoSystem unavailableThenLimited) = Some (Inl ErrRateLimited) \<and>
   backoffAfter demoLib 2 (demoSystem unavailableThenLimited) = Some (60 * Second)"
proof -
  have "clientAnswerAt demoLib 0 (demoSystem unavailableThenLimited) = Some (Inl ErrAPIUnavailable)"
    by code_simp
  moreover have "clientAnswerAt demoLib 1 (demoSystem unavailableThenLimited) = Some (Inl ErrRateLimited)"
    by code_simp
  moreover have "backoffAfter demoLib 2 (demoSystem unavailableThenLimited) = Some (60 * Second)"
    by code_simp
  ultimately show ?thesis
    by simp
qed

section \<open>Authentication\<close>

lemma fetchOrganizationsOnce_frame:
  "client (snd (fetchOrganizationsOnce L key s)) = client s"
  "config (snd (fetchOrganizationsOnce L key s)) = config s"
  "disk (snd (fetchOrganizationsOnce L key s)) = disk s"
  "saves (snd (fetchOrganizationsOnce L key s)) = saves s"
  "save_error (snd (fetchOrganizationsOnce L key s)) = save_error s"
  by (simp_all add: fetchOrganizationsOnce_def http_Do_def
      split: option.splits http_result.splits sum.splits)

lemma FetchOrganizations_frame:
  "client (snd (FetchOrganizations L s)) = client s"
  "config (snd (FetchOrganizations L s)) = config s"
  "disk (snd (FetchOrganizations L s)) = disk s"
  "saves (snd (FetchOrganizations L s)) = saves s"
  "save_error (snd (FetchOrganizations L s)) = save_error s"
proof -
  let ?k = "sessionKey (client s)"
  obtain r s1 where a: "fetchOrganizationsOnce L ?k s = (r, s1)"
    by (cases "fetchOrganizationsOnce L ?k s")
  have f1: "client s1 = client s" "config s1 = config s" "disk s1 = disk s"
    "saves s1 = saves s" "save_error s1 = save_error s"
    using fetchOrganizationsOnce_frame [of L ?k s] a by simp_all
  let ?s2 = "time_Sleep (2 * Second) s1"
  have f2: "client (snd (fetchOrganizationsOnce L ?k ?s2)) = client s"
    "config (snd (fetchOrganizationsOnce L ?k ?s2)) = config s"
    "disk (snd (fetchOrganizationsOnce L ?k ?s2)) = disk s"
    "saves (snd (fetchOrganizationsOnce L ?k ?s2)) = saves s"
    "save_error (snd (fetchOrganizationsOnce L ?k ?s2)) = save_error s"
    using fetchOrganizationsOnce_frame [of L ?k ?s2] f1 by (simp_all add: time_Sleep_def)
  have "FetchOrganizations L s = (Inl ErrNoSessionKey, s) \<or>
        FetchOrganizations L s = (r, s1) \<or>
        FetchOrganizations L s = fetchOrganizationsOnce L ?k ?s2"
    using a by (simp add: FetchOrganizations_def FetchOrganizations_loop_unfold split: sum.splits)
  then show "client (snd (FetchOrganizations L s)) = client s"
    "config (snd (FetchOrganizations L s)) = config s"
    "disk (snd (FetchOrganizations L s)) = disk s"
    "saves (snd (FetchOrganizations L s)) = saves s"
    "save_error (snd (FetchOrganizations L s)) = save_error s"
    using f1 f2 by auto
qed

text \<open>
  A failed verification leaves the client, the configuration and the file alone; a
  successful one keeps the session key of the client.
\<close>

lemma verifyAndFetchOrg_failed:
  assumes "verifyAndFetchOrg L s = (Some err, s1)"
  shows "client s1 = client s" and "config s1 = config s" and "disk s1 = disk s"
  using assms FetchOrganizations_frame(1-3) [of L s]
  by (auto simp: verifyAndFetchOrg_def split: prod.splits sum.splits list.splits)

lemma verifyAndFetchOrg_verified:
  assumes "verifyAndFetchOrg L s = (None, s1)"
  shows "sessionKey (client s1) = sessionKey (client s)"
  using assms FetchOrganizations_frame(1) [of L s]
  by (auto simp: verifyAndFetchOrg_def Config_SetOrganizationID_def Config_Save_def
      SetOrganizationID_def split: prod.splits sum.splits list.splits option.splits)

text \<open>
  C8. \<open>SetManualSessionKey key\<close> makes \<open>key\<close> the client's session key and verifies with
  it. When the verification fails, that error is returned, the client's session key is
  empty afterwards, and the stored configuration is untouched. When it succeeds, no error
  is returned, the client keeps \<open>key\<close>, the configuration holds \<open>key\<close> and is saved
  (one more \<open>Save\<close>), and the file holds it unless that \<open>Save\<close> fails.
\<close>

theorem SetManualSessionKey_contract:
  "sessionKey (client (SetSessionKey key s)) = key \<and>
   (\<forall>err s1. verifyAndFetchOrg L (SetSessionKey key s) = (Some err, s1) \<longrightarrow>
      fst (SetManualSessionKey L key s) = Some err \<and>
      sessionKey (client (snd (SetManualSessionKey L key s))) = '''' \<and>
      config (snd (SetManualSessionKey L key s)) = config s \<and>
      disk (snd (SetManualSessionKey L key s)) = disk s) \<and>
   (\<forall>s1. verifyAndFetchOrg L (SetSessionKey key s) = (None, s1) \<longrightarrow>
      fst (SetManualSessionKey L key s) = None \<and>
      sessionKey (client (snd (SetManualSessionKey L key s))) = key \<and>
      SessionKey (config (snd (SetManualSessionKey L key s))) = key \<and>
      saves (snd (SetManualSessionKey L key s)) = Suc (saves s1) \<and>
      (save_error s1 (saves s1) = None \<longrightarrow>
         disk (snd (SetManualSessionKey L key s)) = Some (config (snd (SetManualSessionKey L key s)))))"
proof (intro conjI allI impI)
  show "sessionKey (client (SetSessionKey key s)) = key"
    by (simp add: SetSessionKey_def)
next
  fix err s1
  assume v: "verifyAndFetchOrg L (SetSessionKey key s) = (Some err, s1)"
  then have m: "SetManualSessionKey L key s = (Some err, SetSessionKey '''' s1)"
    by (simp add: SetManualSessionKey_def)
  show "fst (SetManualSessionKey L key s) = Some err"
    by (simp add: m)
  show "sessionKey (client (snd (SetManualSessionKey L key s))) = ''''"
    by (simp add: m SetSessionKey_def)
  show "config (snd (SetManualSessionKey L key s)) = config s"
    using verifyAndFetchOrg_failed(2) [OF v] by (simp add: m SetSessionKey_def)
  show "disk (snd (SetManualSessionKey L key s)) = disk s"
    using verifyAndFetchOrg_failed(3) [OF v] by (simp add: m SetSessionKey_def)
next
  fix s1
  assume v: "verifyAndFetchOrg L (SetSessionKey key s) = (None, s1)"
  then have m: "SetManualSessionKey L key s = (None, snd (Config_SetSessionKey key s1))"
    by (simp add: SetManualSessionKey_def)
  have k: "sessionKey (client s1) = key"
    using verifyAndFetchOrg_verified [OF v] by (simp add: SetSessionKey_def)
  show "fst (SetManualSessionKey L key s) = None"
    by (simp add: m)
  show "sessionKey (client (snd (SetManualSessionKey L key s))) = key"
    using k by (simp add: m Config_SetSessionKey_def Config_Save_def split: option.splits)
  show "SessionKey (config (snd (SetManualSessionKey L key s))) = key"
    by (simp add: m Config_SetSessionKey_def Config_Save_def split: option.splits)
  show "saves (snd (SetManualSessionKey L key s)) = Suc (saves s1)"
    by (simp add: m Config_SetSessionKey_def Config_Save_def split: option.splits)
  show "disk (snd (SetManualSessionKey L key s)) = Some (config (snd (SetManualSessionKey L key s)))"
    if "save_error s1 (saves s1) = None"
    using that by (simp add: m Config_SetSessionKey_def Config_Save_def)
qed

theorem SetManualSessionKey_contract_witness:
  "SetManualSessionKey demoLib ''sk-ant-sid01-old''
        (demoSystem (always (Response 401 sessionInvalidBody))) =
     (Some ErrSessionExpired,
      snd (SetManualSessionKey demoLib ''sk-ant-sid01-old''
             (demoSystem (always (Response 401 sessionInvalidBody))))) \<and>
   sessionKey (client (snd (SetManualSessionKey demoLib ''sk-ant-sid01-old''
        (demoSystem (always (Response 401 sessionInvalidBody)))))) = '''' \<and>
   fst (SetManualSessionKey demoLib ''sk-ant-sid01-new''
        (demoSystem (always (Response 200 orgsBody)))) = None \<and>
   sessionKey (client (snd (SetManualSessionKey demoLib ''sk-ant-sid01-new''
        (demoSystem (always (Response 200 orgsBody)))))) = ''sk-ant-sid01-new'' \<and>
   map_option SessionKey (disk (snd (SetManualSessionKey demoLib ''sk-ant-sid01-new''
        (demoSystem (always (Response 200 orgsBody)))))) = Some ''sk-ant-sid01-new''"
proof -
  let ?bad = "demoSystem (always (Response 401 sessionInvalidBody))"
  let ?good = "demoSystem (always (Response 200 orgsBody))"
  let ?vb = "verifyAndFetchOrg demoLib (SetSessionKey ''sk-ant-sid01-old'' ?bad)"
  let ?vg = "verifyAndFetchOrg demoLib (SetSessionKey ''sk-ant-sid01-new'' ?good)"
  have "fst ?vb = Some ErrSessionExpired"
    by code_simp
  then have vb: "?vb = (Some ErrSessionExpired, snd ?vb)"
    by (simp add: prod_eq_iff)
  have "fst ?vg = None"
    by code_simp
  then have vg: "?vg = (None, snd ?vg)"
    by (simp add: prod_eq_iff)
  have se: "save_error (snd ?vg) (saves (snd ?vg)) = None"
    by code_simp
  note c1 = SetManualSessionKey_contract [of "''sk-ant-sid01-old''" ?bad demoLib]
  note c2 = SetManualSessionKey_contract [of "''sk-ant-sid01-new''" ?good demoLib]
  from c1 vb have b: "fst (SetManualSessionKey demoLib ''sk-ant-sid01-old'' ?bad) = Some ErrSessionExpired"
    "sessionKey (client (snd (SetManualSessionKey demoLib ''sk-ant-sid01-old'' ?bad))) = ''''"
    by blast+
  from c2 vg se have g: "fst (SetManualSessionKey demoLib ''sk-ant-sid01-new'' ?good) = None"
    "sessionKey (client (snd (SetManualSessionKey demoLib ''sk-ant-sid01-new'' ?good))) = ''sk-ant-sid01-new''"
    "SessionKey (config (snd (SetManualSessionKey demoLib ''sk-ant-sid01-new'' ?good))) = ''sk-ant-sid01-new''"
    "disk (snd (SetManualSessionKey demoLib ''sk-ant-sid01-new'' ?good)) =
       Some (config (snd (SetManualSessionKey demoLib ''sk-ant-sid01-new'' ?good)))"
    by blast+
  from b g show ?thesis
    by (simp add: prod_eq_iff)
qed

section \<open>Normalizing the usage response\<close>

lemma parseTime_loop_accepted:
  "\<exists>f \<in> set fs. time_Parse L f s \<noteq> None \<Longrightarrow>
     \<exists>f \<in> set fs. time_Parse L f s = Some (parseTime_loop L fs s)"
  by (induction fs) (auto split: option.splits)

lemma parseTime_loop_rejected:
  "\<forall>f \<in> set fs. time_Parse L f s = None \<Longrightarrow> parseTime_loop L fs s = zeroTime"
  by (induction fs) auto

lemma toStat_Label: "Label (toStat L lbl (Some m)) = lbl"
  by (simp add: toStat_def)

lemma toStat_parsed:
  assumes "m_ResetsAt m \<noteq> '''' \<and> (\<exists>f \<in> set formats. time_Parse L f (m_ResetsAt m) \<noteq> None)"
  shows "\<exists>f \<in> set formats. time_Parse L f (m_ResetsAt m) = Some (ResetsAt (toStat L lbl (Some m)))"
proof -
  from assms have "\<exists>f \<in> set formats. time_Parse L f (m_ResetsAt m) =
      Some (parseTime_loop L formats (m_ResetsAt m))"
    by (intro parseTime_loop_accepted) simp
  moreover have "ResetsAt (toStat L lbl (Some m)) = parseTime_loop L formats (m_ResetsAt m)"
    using assms by (simp add: toStat_def parseTime_def)
  ultimately show ?thesis
    by simp
qed

lemma toStat_unparseable:
  assumes "m_ResetsAt m = '''' \<or> (\<forall>f \<in> set formats. time_Parse L f (m_ResetsAt m) = None)"
  shows "ResetsAt (toStat L lbl (Some m)) = zeroTime"
proof (cases "m_ResetsAt m = ''''")
  case True
  then show ?thesis
    by (simp add: toStat_def parseTime_def)
next
  case False
  with assms have "parseTime_loop L formats (m_ResetsAt m) = zeroTime"
    by (intro parseTime_loop_rejected) simp
  with False show ?thesis
    by (simp add: toStat_def parseTime_def)
qed

lemma toStat_absent: "toStat L lbl None = zeroStat"
  by (simp add: toStat_def)

lemma ToUsageData_fields:
  "FiveHour (ToUsageData L now r) = toStat L ''5-Hour'' (r_FiveHour r)"
  "SevenDay (ToUsageData L now r) = toStat L ''Weekly'' (r_SevenDay r)"
  "SevenDayOpus (ToUsageData L now r) = toStat L ''Opus'' (r_SevenDayOpus r)"
  "SevenDaySonnet (ToUsageData L now r) = toStat L ''Sonnet'' (r_SevenDaySonnet r)"
  by (simp_all add: ToUsageData_def)

text \<open>
  C9, as the code has it. \<open>ToUsageData\<close> always produces a snapshot (it has no error
  return). When all four metrics are present and each \<open>resets_at\<close> string is non-empty
  and accepted by \<open>time.Parse\<close> under one of the four layouts that \<open>parseTime\<close> tries,
  the four labels are "5-Hour", "Weekly", "Opus" and "Sonnet" and each \<open>ResetsAt\<close> is the
  time that \<open>time.Parse\<close> gave for that string. A metric that is absent leaves its
  \<open>UsageStat\<close> at the zero value, and a \<open>resets_at\<close> string that is empty or that no
  layout accepts, valid ISO 8601 or not, gives the zero time.
\<close>

theorem ToUsageData_contract:
  assumes "d = ToUsageData L now r"
  shows
    "(r_FiveHour r = Some m1 \<and> r_SevenDay r = Some m2 \<and>
      r_SevenDayOpus r = Some m3 \<and> r_SevenDaySonnet r = Some m4 \<and>
      (\<forall>m \<in> {m1, m2, m3, m4}.
          m_ResetsAt m \<noteq> '''' \<and> (\<exists>f \<in> set formats. time_Parse L f (m_ResetsAt m) \<noteq> None)) \<longrightarrow>
        Label (FiveHour d) = ''5-Hour'' \<and> Label (SevenDay d) = ''Weekly'' \<and>
        Label (SevenDayOpus d) = ''Opus'' \<and> Label (SevenDaySonnet d) = ''Sonnet'' \<and>
        (\<exists>f \<in> set formats. time_Parse L f (m_ResetsAt m1) = Some (ResetsAt (FiveHour d))) \<and>
        (\<exists>f \<in> set formats. time_Parse L f (m_ResetsAt m2) = Some (ResetsAt (SevenDay d))) \<and>
        (\<exists>f \<in> set formats. time_Parse L f (m_ResetsAt m3) = Some (ResetsAt (SevenDayOpus d))) \<and>
        (\<exists>f \<in> set formats. time_Parse L f (m_ResetsAt m4) = Some (ResetsAt (SevenDaySonnet d)))) \<and>
     (r_FiveHour r = None \<longrightarrow> FiveHour d = zeroStat) \<and>
     (r_SevenDay r = None \<longrightarrow> SevenDay d = zeroStat) \<and>
     (r_SevenDayOpus r = None \<longrightarrow> SevenDayOpus d = zeroStat) \<and>
     (r_SevenDaySonnet r = None \<longrightarrow> SevenDaySonnet d = zeroStat) \<and>
     (\<forall>m. m_ResetsAt m = '''' \<or> (\<forall>f \<in> set formats. time_Parse L f (m_ResetsAt m) = None) \<longrightarrow>
        (r_FiveHour r = Some m \<longrightarrow> ResetsAt (FiveHour d) = zeroTime) \<and>
        (r_SevenDay r = Some m \<longrightarrow> ResetsAt (SevenDay d) = zeroTime) \<and>
        (r_SevenDayOpus r = Some m \<longrightarrow> ResetsAt (SevenDayOpus d) = zeroTime) \<and>
        (r_SevenDaySonnet r = Some m \<longrightarrow> ResetsAt (SevenDaySonnet d) = zeroTime))"
  unfolding assms ToUsageData_fields
proof (intro conjI)
  show "r_FiveHour r = Some m1 \<and> r_SevenDay r = Some m2 \<and>
      r_SevenDayOpus r = Some m3 \<and> r_SevenDaySonnet r = Some m4 \<and>
      (\<forall>m \<in> {m1, m2, m3, m4}.
          m_ResetsAt m \<noteq> '''' \<and> (\<exists>f \<in> set formats. time_Parse L f (m_ResetsAt m) \<noteq> None)) \<longrightarrow>
        Label (toStat L ''5-Hour'' (r_FiveHour r)) = ''5-Hour'' \<and>
        Label (toStat L ''Weekly'' (r_SevenDay r)) = ''Weekly'' \<and>
        Label (toStat L ''Opus'' (r_SevenDayOpus r)) = ''Opus'' \<and>
        Label (toStat L ''Sonnet'' (r_SevenDaySonnet r)) = ''Sonnet'' \<and>
        (\<exists>f \<in> set formats. time_Parse L f (m_ResetsAt m1) =
            Some (ResetsAt (toStat L ''5-Hour'' (r_FiveHour r)))) \<and>
        (\<exists>f \<in> set formats. time_Parse L f (m_ResetsAt m2) =
            Some (ResetsAt (toStat L ''Weekly'' (r_SevenDay r)))) \<and>
        (\<exists>f \<in> set formats. time_Parse L f (m_ResetsAt m3) =
            Some (ResetsAt (toStat L ''Opus'' (r_SevenDayOpus r)))) \<and>
        (\<exists>f \<in> set formats. time_Parse L f (m_ResetsAt m4) =
            Some (ResetsAt (toStat L ''Sonnet'' (r_SevenDaySonnet r))))"
    (is "_ \<longrightarrow> ?A")
  proof (intro impI, elim conjE)
    assume p: "r_FiveHour r = Some m1" "r_SevenDay r = Some m2"
      "r_SevenDayOpus r = Some m3" "r_SevenDaySonnet r = Some m4"
    assume v: "\<forall>m \<in> {m1, m2, m3, m4}.
          m_ResetsAt m \<noteq> '''' \<and> (\<exists>f \<in> set formats. time_Parse L f (m_ResetsAt m) \<noteq> None)"
    have v1: "m_ResetsAt m1 \<noteq> '''' \<and> (\<exists>f \<in> set formats. time_Parse L f (m_ResetsAt m1) \<noteq> None)"
      using v by (rule bspec) simp
    have v2: "m_ResetsAt m2 \<noteq> '''' \<and> (\<exists>f \<in> set formats. time_Parse L f (m_ResetsAt m2) \<noteq> None)"
      using v by (rule bspec) simp
    have v3: "m_ResetsAt m3 \<noteq> '''' \<and> (\<exists>f \<in> set formats. time_Parse L f (m_ResetsAt m3) \<noteq> None)"
      using v by (rule bspec) simp
    have v4: "m_ResetsAt m4 \<noteq> '''' \<and> (\<exists>f \<in> set formats. time_Parse L f (m_ResetsAt m4) \<noteq> None)"
      using v by (rule bspec) simp
    show ?A
      unfolding p
      by (intro conjI toStat_Label toStat_parsed v1 v2 v3 v4)
  qed
next
  show "\<forall>m. m_ResetsAt m = '''' \<or> (\<forall>f \<in> set formats. time_Parse L f (m_ResetsAt m) = None) \<longrightarrow>
        (r_FiveHour r = Some m \<longrightarrow> ResetsAt (toStat L ''5-Hour'' (r_FiveHour r)) = zeroTime) \<and>
        (r_SevenDay r = Some m \<longrightarrow> ResetsAt (toStat L ''Weekly'' (r_SevenDay r)) = zeroTime) \<and>
        (r_SevenDayOpus r = Some m \<longrightarrow> ResetsAt (toStat L ''Opus'' (r_SevenDayOpus r)) = zeroTime) \<and>
        (r_SevenDaySonnet r = Some m \<longrightarrow> ResetsAt (toStat L ''Sonnet'' (r_SevenDaySonnet r)) = zeroTime)"
  proof (intro allI impI conjI)
    fix m :: UsageMetric
    assume b: "m_ResetsAt m = '''' \<or> (\<forall>f \<in> set formats. time_Parse L f (m_ResetsAt m) = None)"
    show "ResetsAt (toStat L ''5-Hour'' (r_FiveHour r)) = zeroTime" if "r_FiveHour r = Some m"
      unfolding that by (rule toStat_unparseable [OF b])
    show "ResetsAt (toStat L ''Weekly'' (r_SevenDay r)) = zeroTime" if "r_SevenDay r = Some m"
      unfolding that by (rule toStat_unparseable [OF b])
    show "ResetsAt (toStat L ''Opus'' (r_SevenDayOpus r)) = zeroTime" if "r_SevenDayOpus r = Some m"
      unfolding that by (rule toStat_unparseable [OF b])
    show "ResetsAt (toStat L ''Sonnet'' (r_SevenDaySonnet r)) = zeroTime" if "r_SevenDaySonnet r = Some m"
      unfolding that by (rule toStat_unparseable [OF b])
  qed
qed (simp_all add: toStat_absent)

theorem ToUsageData_contract_witness:
  "Label (FiveHour (ToUsageData demoLib 1000 fullResponse)) = ''5-Hour'' \<and>
   Label (SevenDay (ToUsageData demoLib 1000 fullResponse)) = ''Weekly'' \<and>
   Label (SevenDayOpus (ToUsageData demoLib 1000 fullResponse)) = ''Opus'' \<and>
   Label (SevenDaySonnet (ToUsageData demoLib 1000 fullResponse)) = ''Sonnet'' \<and>
   ResetsAt (FiveHour (ToUsageData demoLib 1000 fullResponse)) = 63871286400000000000 \<and>
   ResetsAt (SevenDaySonnet (ToUsageData demoLib 1000 fullResponse)) = 63871286400000000000 \<and>
   FiveHour (ToUsageData demoLib 1000 partialResponse) = zeroStat \<and>
   ResetsAt (SevenDay (ToUsageData demoLib 1000 partialResponse)) = zeroTime \<and>
   ResetsAt (SevenDayOpus (ToUsageData demoLib 1000 partialResponse)) = zeroTime"
proof -
  define m60 m35 m10 m25 :: UsageMetric
    where "m60 = \<lparr>m_Utilization = 60, m_ResetsAt = ''2025-01-01T00:00:00Z''\<rparr>"
      and "m35 = \<lparr>m_Utilization = 35, m_ResetsAt = ''2025-01-01T00:00:00Z''\<rparr>"
      and "m10 = \<lparr>m_Utilization = 10, m_ResetsAt = ''2025-01-01T00:00:00Z''\<rparr>"
      and "m25 = \<lparr>m_Utilization = 25, m_ResetsAt = ''2025-01-01T00:00:00Z''\<rparr>"
  define e35 t10 :: UsageMetric
    where "e35 = \<lparr>m_Utilization = 35, m_ResetsAt = ''''\<rparr>"
      and "t10 = \<lparr>m_Utilization = 10, m_ResetsAt = ''next tuesday''\<rparr>"
  let ?d = "ToUsageData demoLib 1000 fullResponse"
  let ?p = "ToUsageData demoLib 1000 partialResponse"
  have acc: "time_Parse demoLib f ''2025-01-01T00:00:00Z'' =
      (if f = RFC3339 then Some 63871286400000000000 else None)" for f
    by (simp add: demoLib_def)
  have rej: "time_Parse demoLib f ''next tuesday'' = None" for f
    by (simp add: demoLib_def)
  have ok: "s = ''2025-01-01T00:00:00Z'' \<Longrightarrow>
      s \<noteq> '''' \<and> (\<exists>f \<in> set formats. time_Parse demoLib f s \<noteq> None)" for s
    by (simp add: acc formats_def)
  have v: "\<forall>m \<in> {m60, m35, m10, m25}.
      m_ResetsAt m \<noteq> '''' \<and> (\<exists>f \<in> set formats. time_Parse demoLib f (m_ResetsAt m) \<noteq> None)"
    using ok by (simp add: m60_def m35_def m10_def m25_def)
  have p: "r_FiveHour fullResponse = Some m60" "r_SevenDay fullResponse = Some m35"
    "r_SevenDayOpus fullResponse = Some m10" "r_SevenDaySonnet fullResponse = Some m25"
    by (simp_all add: fullResponse_def m60_def m35_def m10_def m25_def)
  note cf = ToUsageData_contract [OF refl, of fullResponse m60 m35 m10 m25 demoLib 1000]
  have full: "Label (FiveHour ?d) = ''5-Hour'' \<and> Label (SevenDay ?d) = ''Weekly'' \<and>
        Label (SevenDayOpus ?d) = ''Opus'' \<and> Label (SevenDaySonnet ?d) = ''Sonnet'' \<and>
        (\<exists>f \<in> set formats. time_Parse demoLib f (m_ResetsAt m60) = Some (ResetsAt (FiveHour ?d))) \<and>
        (\<exists>f \<in> set formats. time_Parse demoLib f (m_ResetsAt m35) = Some (ResetsAt (SevenDay ?d))) \<and>
        (\<exists>f \<in> set formats. time_Parse demoLib f (m_ResetsAt m10) = Some (ResetsAt (SevenDayOpus ?d))) \<and>
        (\<exists>f \<in> set formats. time_Parse demoLib f (m_ResetsAt m25) = Some (ResetsAt (SevenDaySonnet ?d)))"
    by (rule cf [THEN conjunct1, THEN mp]) (intro conjI p v)
  have t1: "ResetsAt (FiveHour ?d) = 63871286400000000000"
  proof -
    from full obtain f where "time_Parse demoLib f (m_ResetsAt m60) = Some (ResetsAt (FiveHour ?d))"
      by blast
    then show ?thesis
      by (simp add: m60_def acc split: if_splits)
  qed
  have t4: "ResetsAt (SevenDaySonnet ?d) = 63871286400000000000"
  proof -
    from full obtain f where "time_Parse demoLib f (m_ResetsAt m25) = Some (ResetsAt (SevenDaySonnet ?d))"
      by blast
    then show ?thesis
      by (simp add: m25_def acc split: if_splits)
  qed
  have q: "r_FiveHour partialResponse = None" "r_SevenDay partialResponse = Some e35"
    "r_SevenDayOpus partialResponse = Some t10"
    by (simp_all add: partialResponse_def e35_def t10_def)
  note cp = ToUsageData_contract [OF refl, of partialResponse m60 m35 m10 m25 demoLib 1000]
  note bad = cp [THEN conjunct2, THEN conjunct2, THEN conjunct2, THEN conjunct2, THEN conjunct2,
      THEN spec, THEN mp]
  have z1: "FiveHour ?p = zeroStat"
    by (rule cp [THEN conjunct2, THEN conjunct1, THEN mp]) (rule q(1))
  have b2: "m_ResetsAt e35 = '''' \<or> (\<forall>f \<in> set formats. time_Parse demoLib f (m_ResetsAt e35) = None)"
    by (simp add: e35_def)
  have b3: "m_ResetsAt t10 = '''' \<or> (\<forall>f \<in> set formats. time_Parse demoLib f (m_ResetsAt t10) = None)"
    by (simp add: t10_def rej)
  have z2: "ResetsAt (SevenDay ?p) = zeroTime"
    by (rule bad [OF b2, THEN conjunct2, THEN conjunct1, THEN mp]) (rule q(2))
  have z3: "ResetsAt (SevenDayOpus ?p) = zeroTime"
    by (rule bad [OF b3, THEN conjunct2, THEN conjunct2, THEN conjunct1, THEN mp]) (rule q(3))
  from full t1 t4 z1 z2 z3 show ?thesis
    by blast
qed

text \<open>
  The claim C9 as it was stated, for every valid ISO 8601 timestamp, fails at a valid
  timestamp outside the four layouts: a local time without zone designator is not the
  parsed instant in the snapshot but the zero time.
\<close>

theorem ToUsageData_local_time_counterexample:
  "ResetsAt (FiveHour (ToUsageData demoLib 1000 localTimeResponse)) = zeroTime \<and>
   ResetsAt (SevenDay (ToUsageData demoLib 1000 localTimeResponse)) = zeroTime \<and>
   ResetsAt (SevenDayOpus (ToUsageData demoLib 1000 localTimeResponse)) = zeroTime \<and>
   ResetsAt (SevenDaySonnet (ToUsageData demoLib 1000 localTimeResponse)) = zeroTime \<and>
   zeroTime \<noteq> 63871286400000000000"
  by (simp add: ToUsageData_def toStat_def parseTime_def formats_def localTimeResponse_def
      demoLib_def zeroTime_def)

section \<open>Further facts\<close>

text \<open>The list of organizations is fetched with the same reading of a 401 or 403.\<close>

lemma fetchOrganizationsOnce_auth_status:
  assumes "url_error L (baseURL @ ''/api/organizations'') = None"
    and "net s (length (requests s)) (setHeaders (baseURL @ ''/api/organizations'') key) = Response st body"
    and "st = 401 \<or> st = 403"
  shows "fst (fetchOrganizationsOnce L key s) =
           Inl (case json_APIError L body of
                  None \<Rightarrow> ErrUnauthorized
                | Some apiErr \<Rightarrow>
                    if Error_Details_ErrorCode apiErr = ''account_session_invalid''
                    then ErrSessionExpired else ErrUnauthorized)"
  using assms
  by (auto simp add: fetchOrganizationsOnce_def http_Do_def parseAPIError_def split: option.splits)

text \<open>
  A successful \<open>FetchUsage\<close> returns a snapshot, never \<open>nil\<close>, and that snapshot is the
  cached one afterwards.
\<close>

lemma fetchUsageOnce_success:
  "fetchUsageOnce L key orgID s = (Inr u, s') \<Longrightarrow> u \<noteq> None \<and> lastUsage (client s') = u"
  by (auto simp: fetchUsageOnce_def http_Do_def Let_def
      split: option.splits http_result.splits if_splits sum.splits)

lemma FetchUsage_success_caches:
  assumes "FetchUsage L s = (Inr u, s')"
  shows "u \<noteq> None \<and> GetLastUsage s' = u"
proof -
  let ?k = "sessionKey (client s)" and ?o = "organizationID (client s)"
  obtain r s1 where a: "fetchUsageOnce L ?k ?o s = (r, s1)"
    by (cases "fetchUsageOnce L ?k ?o s")
  from assms a have "fetchUsageOnce L ?k ?o s = (Inr u, s') \<or>
      fetchUsageOnce L ?k ?o (time_Sleep (2 * Second) s1) = (Inr u, s')"
    by (auto simp: FetchUsage_def FetchUsage_loop_unfold split: if_splits sum.splits)
  then show ?thesis
    by (auto simp: GetLastUsage_def dest: fetchUsageOnce_success)
qed

text \<open>So a tick never panics on a \<open>nil\<close> snapshot.\<close>

lemma fetchUsage_succeeds_on_snapshot:
  assumes "IsAuthenticated s" and "FetchUsage L (consumeBackoff s) = (Inr u, s1)"
  shows "\<exists>usage. u = Some usage \<and> fetchUsage L s = Some (fetchUsage_succeeded usage s1)"
proof -
  from FetchUsage_success_caches [OF assms(2)] obtain usage where "u = Some usage"
    by auto
  with assms show ?thesis
    by (simp add: fetchUsage_def)
qed

end
